theory Spec2Isabelle
  imports Main "HOL-Library.Word"
begin

unbundle bit_operations_syntax

section \<open>The Gary Cooper coop controller: the sketch's control loop\<close>

text \<open>
  The sketch (\<^verbatim>\<open>src/unnamed/part_000\<close>) is the orchestration file of the firmware: the
  settings load and save routines, the cooperative \<^verbatim>\<open>loop()\<close> and the error register
  \<^verbatim>\<open>reportError\<close>. Everything it drives (the GPS parser, the sun calculator, the door,
  light and beep controllers, the telemetry module, the save controller, the timers and
  the serial ports) is declared in headers that are not part of the sources. The model
  therefore keeps, as state, exactly what the control flow of the sketch reads, and
  records every call the sketch makes on a collaborator as an event of a trace, in
  program order.
\<close>

subsection \<open>Build configuration\<close>

text \<open>
  Three preprocessor symbols guard code of the sketch. None of them is defined by
  \<^verbatim>\<open>src/GaryCooper.h\<close>: \<^verbatim>\<open>DEBUG_RAW_GPS\<close> is commented out there (line 4), and
  \<^verbatim>\<open>DEBUG_SETTINGS\<close> and \<^verbatim>\<open>BEEP_ON_ERROR\<close> occur nowhere but in their
  \<^verbatim>\<open>#ifdef\<close>. Each is a field of the build, so that both arms of every
  \<^verbatim>\<open>#ifdef\<close> are modelled; \<open>GaryCooper_h\<close> is the build the header gives.
\<close>

record build =
  DEBUG_RAW_GPS :: bool
  DEBUG_SETTINGS :: bool
  BEEP_ON_ERROR :: bool

definition GaryCooper_h :: build where
  "GaryCooper_h = \<lparr>DEBUG_RAW_GPS = False, DEBUG_SETTINGS = False, BEEP_ON_ERROR = False\<rparr>"

text \<open>\<^verbatim>\<open>#define GARYCOOPER_DATA_VERSION (1)\<close> (GaryCooper.h, line 13).\<close>

definition GARYCOOPER_DATA_VERSION :: int where
  "GARYCOOPER_DATA_VERSION = 1"

text \<open>
  Modelled from the spec: the macro \<^verbatim>\<open>MILLIS_PER_SECOND\<close> comes from a header that is
  not in the sources (MilliTimer.h); the spec gives the three periods built from it as
  5000 ms, 60000 ms and 2000 ms, so it is 1000.
\<close>

definition MILLIS_PER_SECOND :: nat where
  "MILLIS_PER_SECOND = 1000"

definition TIME_CHECK_UPDATE_NO_GPS_LOCK :: nat where
  "TIME_CHECK_UPDATE_NO_GPS_LOCK = 5 * MILLIS_PER_SECOND"

definition TIME_CHECK_UPDATE_GPS_LOCK :: nat where
  "TIME_CHECK_UPDATE_GPS_LOCK = 60 * MILLIS_PER_SECOND"

definition TELEMETRY_UPDATE :: nat where
  "TELEMETRY_UPDATE = 2 * MILLIS_PER_SECOND"

subsection \<open>Calls on the collaborators\<close>

text \<open>
  An Arduino \<^verbatim>\<open>String\<close> as the sketch builds it: from a flash literal \<^verbatim>\<open>F("...")\<close>,
  from an integer (\<^verbatim>\<open>String errorString(_errorTag)\<close>, \<^verbatim>\<open>print(headerVersion)\<close>), or
  from a NUL-terminated byte buffer (\<^verbatim>\<open>String rawGPS((const char *)GPSData)\<close>).
\<close>

datatype ArduinoString =
    F string
  | String_of_tag "16 word"
  | String_of_int int
  | String_of_cstr "8 word list"

datatype timer = g_telemetryUpdateTimer | g_timeCheckTimer

datatype telemetry_term =
    telemetry_tag_version
  | TELEMETRY_VERSION_01
  | telemetry_tag_error_flags
  | term_uint16 "16 word"

datatype beep_freq = BEEP_FREQ_ERROR

datatype event =
    DEBUG_SERIAL_print ArduinoString
  | DEBUG_SERIAL_println ArduinoString
  | DEBUG_SERIAL_println_empty
  | digitalWrite_PIN_HEARTBEAT_LED bool
  | CMilliTimer_start timer nat
  | g_GPSParser_parse "8 word list"
  | g_GPSData_clear
  | g_sunCalc_processGPSData
  | g_sunCalc_sendTelemetry
  | g_telemetryComm_tick
  | g_telemetry_tick
  | g_telemetry_transmissionStart
  | g_telemetry_sendTerm telemetry_term
  | g_telemetry_transmissionEnd
  | g_beepController_tick
  | g_beepController_beep beep_freq nat nat int
  | g_doorController_tick
  | g_doorController_checkTime
  | g_doorController_sendTelemetry
  | g_doorController_saveSettings bool
  | g_doorController_loadSettings
  | g_lightController_checkTime
  | g_lightController_sendTelemetry
  | g_lightController_saveSettings bool
  | g_lightController_loadSettings
  | g_saveController_updateHeader int
  | g_saveController_rewind

text \<open>
  The enumerators of \<^verbatim>\<open>telemetryErrorE\<close> that the sketch names. The enumeration is
  declared in TelemetryTags.h, which is not in the sources, so the values are a parameter.
  The sketch uses a value as a mask on the 16-bit \<^verbatim>\<open>s_errorFlags\<close>.
\<close>

record TelemetryTags =
  telemetry_error_GPS_no_data :: "16 word"
  telemetry_error_GPS_bad_data :: "16 word"
  telemetry_error_GPS_not_locked :: "16 word"
  telemetry_error_suncalc_invalid_time :: "16 word"
  telemetry_error_no_door_motor :: "16 word"
  telemetry_error_door_motor_unknown_state :: "16 word"
  telemetry_error_door_motor_unknown_not_responding :: "16 word"

text \<open>
  What the sketch needs of the GPS parser and of the sun calculator, whose code is not in
  the sources: \<open>'p\<close> is the state of \<^verbatim>\<open>g_GPSParser\<close> (its fix data included);
  \<open>CGPSParser_parse\<close> is \<^verbatim>\<open>parse(GPSData, GPSDataLen)\<close>, \<open>m_GPSLocked\<close> reads
  \<^verbatim>\<open>getGPSData().m_GPSLocked\<close>, \<open>CGPSData_clear\<close> is \<^verbatim>\<open>getGPSData().clear()\<close> and
  \<open>CSunCalc_processGPSData\<close> is the result of \<^verbatim>\<open>g_sunCalc.processGPSData(getGPSData())\<close>.
\<close>

record 'p collaborators =
  CGPSParser_parse :: "8 word list \<Rightarrow> 'p \<Rightarrow> 'p"
  m_GPSLocked :: "'p \<Rightarrow> bool"
  CGPSData_clear :: "'p \<Rightarrow> 'p"
  CSunCalc_processGPSData :: "'p \<Rightarrow> bool"

subsection \<open>State\<close>

text \<open>
  The globals of the sketch (\<open>settingsLoaded\<close>, \<open>s_gpsDataStreamActive\<close>,
  \<open>g_heartbeat\<close>, \<open>s_errorFlags\<close>, \<open>g_GPSParser\<close>), the bytes waiting in the receive
  buffer of \<^verbatim>\<open>GPS_SERIAL\<close>, the data version held by \<^verbatim>\<open>g_saveController\<close>, and the
  trace of calls made so far.
\<close>

record 'p state =
  settingsLoaded :: bool
  s_gpsDataStreamActive :: bool
  g_heartbeat :: bool
  s_errorFlags :: "16 word"
  g_GPSParser :: 'p
  GPS_SERIAL :: "8 word list"
  stored_version :: int
  trace :: "event list"

text \<open>The static initialisers of the sketch, over a parser state and a stored version.\<close>

definition power_on :: "'p \<Rightarrow> int \<Rightarrow> 'p state" where
  "power_on p v =
     \<lparr>settingsLoaded = False, s_gpsDataStreamActive = False, g_heartbeat = False,
      s_errorFlags = 0, g_GPSParser = p, GPS_SERIAL = [], stored_version = v, trace = []\<rparr>"

definition emit :: "event \<Rightarrow> 'p state \<Rightarrow> 'p state" where
  "emit e s = s\<lparr>trace := trace s @ [e]\<rparr>"

definition emits :: "event list \<Rightarrow> 'p state \<Rightarrow> 'p state" where
  "emits es s = s\<lparr>trace := trace s @ es\<rparr>"

text \<open>The events a run from \<open>s\<close> to \<open>s'\<close> added to the trace.\<close>

definition new_events :: "'p state \<Rightarrow> 'p state \<Rightarrow> event list" where
  "new_events s s' = drop (length (trace s)) (trace s')"

subsection \<open>The error register (lines 279-372)\<close>

text \<open>
  The \<^verbatim>\<open>switch\<close> of \<^verbatim>\<open>reportError\<close>: the name and the beep count of a tag. The
  \<^verbatim>\<open>default\<close> arm keeps the string the tag's number initialised and the count 0.
\<close>

definition error_switch :: "TelemetryTags \<Rightarrow> 16 word \<Rightarrow> ArduinoString \<times> int" where
  "error_switch T errorTag =
     (if errorTag = telemetry_error_GPS_no_data T then
        (F ''telemetry_error_GPS_no_data'', 1)
      else if errorTag = telemetry_error_GPS_bad_data T then
        (F ''telemetry_error_GPS_bad_data'', 2)
      else if errorTag = telemetry_error_GPS_not_locked T then
        (F ''telemetry_error_GPS_not_locked'', 3)
      else if errorTag = telemetry_error_suncalc_invalid_time T then
        (F ''telemetry_error_suncalc_invalid_time'', 4)
      else if errorTag = telemetry_error_no_door_motor T then
        (F ''telemetry_error_no_door_motor'', 5)
      else if errorTag = telemetry_error_door_motor_unknown_state T then
        (F ''telemetry_error_door_motor_unknown_state'', 6)
      else if errorTag = telemetry_error_door_motor_unknown_not_responding T then
        (F ''telemetry_error_door_motor_unknown_not_responding'', 7)
      else (String_of_tag errorTag, 0))"

definition errorString :: "TelemetryTags \<Rightarrow> 16 word \<Rightarrow> ArduinoString" where
  "errorString T errorTag = fst (error_switch T errorTag)"

definition beepCount :: "TelemetryTags \<Rightarrow> 16 word \<Rightarrow> int" where
  "beepCount T errorTag = snd (error_switch T errorTag)"

text \<open>The console report of a transition (lines 348-363).\<close>

definition report_events :: "build \<Rightarrow> TelemetryTags \<Rightarrow> 16 word \<Rightarrow> bool \<Rightarrow> event list" where
  "report_events B T errorTag set' =
     [DEBUG_SERIAL_println_empty] @
     (if set' then
        [DEBUG_SERIAL_print (F ''*** SET ERROR: '')] @
        (if BEEP_ON_ERROR B
         then [g_beepController_beep BEEP_FREQ_ERROR 100 50 (beepCount T errorTag)]
         else [])
      else [DEBUG_SERIAL_print (F ''*** CLEAR ERROR: '')]) @
     [DEBUG_SERIAL_println (errorString T errorTag), DEBUG_SERIAL_println_empty]"

definition reportError ::
  "build \<Rightarrow> TelemetryTags \<Rightarrow> 16 word \<Rightarrow> bool \<Rightarrow> 'p state \<Rightarrow> 'p state" where
  "reportError B T errorTag set' s =
     (if set' then
        (if s_errorFlags s AND errorTag \<noteq> 0 then s
         else emits (report_events B T errorTag set')
                (s\<lparr>s_errorFlags := s_errorFlags s OR errorTag\<rparr>))
      else
        (if \<not> (s_errorFlags s AND errorTag \<noteq> 0) then s
         else emits (report_events B T errorTag set')
                (s\<lparr>s_errorFlags := s_errorFlags s AND NOT errorTag\<rparr>)))"

definition sendErrors :: "'p state \<Rightarrow> 'p state" where
  "sendErrors s =
     emits [g_telemetry_transmissionStart,
            g_telemetry_sendTerm telemetry_tag_error_flags,
            g_telemetry_sendTerm (term_uint16 (s_errorFlags s)),
            g_telemetry_transmissionEnd] s"

subsection \<open>Settings (lines 62-126)\<close>

text \<open>
  Modelled from the spec: \<^verbatim>\<open>CSaveController\<close> (SaveController.h) is not in the sources.
  The spec's settings blob starts with a magic tag and a version number, and the store
  offers \<^verbatim>\<open>getStoredVersion() -> int\<close>; so \<open>updateHeader v\<close> stores \<open>v\<close> as the version
  of the header and \<open>getDataVersion\<close> returns the version stored. The door and light
  controllers own the regions behind the header and leave the header alone.
\<close>

definition g_saveController_getDataVersion :: "'p state \<Rightarrow> int" where
  "g_saveController_getDataVersion s = stored_version s"

definition updateHeader :: "int \<Rightarrow> 'p state \<Rightarrow> 'p state" where
  "updateHeader v s = emit (g_saveController_updateHeader v) (s\<lparr>stored_version := v\<rparr>)"

definition debug_settings :: "build \<Rightarrow> event list \<Rightarrow> 'p state \<Rightarrow> 'p state" where
  "debug_settings B es s = (if DEBUG_SETTINGS B then emits es s else s)"

definition saveSettings :: "build \<Rightarrow> bool \<Rightarrow> 'p state \<Rightarrow> 'p state" where
  "saveSettings B defaults s =
     (let s = debug_settings B [DEBUG_SERIAL_print (F ''Save settings... '')] s;
          s = updateHeader GARYCOOPER_DATA_VERSION s;
          s = emit g_saveController_rewind s;
          s = emit (g_doorController_saveSettings defaults) s;
          s = emit (g_lightController_saveSettings defaults) s
      in debug_settings B [DEBUG_SERIAL_println (F ''complete.'')] s)"

definition loadSettings :: "build \<Rightarrow> 'p state \<Rightarrow> 'p state" where
  "loadSettings B s =
     (let s = debug_settings B
                [DEBUG_SERIAL_print (F ''Load settings checking header version: '')] s;
          headerVersion = g_saveController_getDataVersion s;
          s = debug_settings B
                [DEBUG_SERIAL_print (String_of_int headerVersion),
                 DEBUG_SERIAL_print (F '' - '')] s;
          s = (if headerVersion \<noteq> GARYCOOPER_DATA_VERSION then
                 saveSettings B True
                   (debug_settings B
                      [DEBUG_SERIAL_println (F ''INCORRECT.''),
                       DEBUG_SERIAL_println (F ''Saving default settings.'')] s)
               else debug_settings B [DEBUG_SERIAL_println (F ''CORRECT.'')] s);
          s = debug_settings B [DEBUG_SERIAL_println (F ''Loading settings... '')] s;
          s = emit g_saveController_rewind s;
          s = emit g_doorController_loadSettings s;
          s = emit g_lightController_loadSettings s
      in debug_settings B [DEBUG_SERIAL_println (F ''Load settings complete.'')] s)"

subsection \<open>The loop (lines 162-266)\<close>

text \<open>
  \<^verbatim>\<open>GPS_SERIAL\<close> is an Arduino stream: \<^verbatim>\<open>available()\<close> is the number of bytes waiting
  and \<^verbatim>\<open>readBytes(buf, n)\<close> takes up to \<open>n\<close> of them, oldest first, and returns how
  many it took. Bytes arrive between two passes of the loop (\<open>receive\<close>).
\<close>

definition available :: "'p state \<Rightarrow> nat" where
  "available s = length (GPS_SERIAL s)"

definition readBytes :: "nat \<Rightarrow> 'p state \<Rightarrow> 8 word list \<times> 'p state" where
  "readBytes n s = (take n (GPS_SERIAL s), s\<lparr>GPS_SERIAL := drop n (GPS_SERIAL s)\<rparr>)"

definition receive :: "8 word list \<Rightarrow> 'p state \<Rightarrow> 'p state" where
  "receive bs s = s\<lparr>GPS_SERIAL := GPS_SERIAL s @ bs\<rparr>"

text \<open>\<^verbatim>\<open>sizeof(GPSData)\<close> of \<^verbatim>\<open>unsigned char GPSData[256]\<close>.\<close>

definition sizeof_GPSData :: nat where
  "sizeof_GPSData = 256"

text \<open>The body of the \<^verbatim>\<open>if(GPSDataLen)\<close> of lines 183-196, on the bytes read.\<close>

definition gps_chunk :: "build \<Rightarrow> 'p collaborators \<Rightarrow> 8 word list \<Rightarrow> 'p state \<Rightarrow> 'p state" where
  "gps_chunk B X GPSData s =
     (let s = (if DEBUG_RAW_GPS B
               then emit (DEBUG_SERIAL_print
                            (String_of_cstr (takeWhile (\<lambda>b. b \<noteq> 0) GPSData))) s
               else s);
          s = emit (g_GPSParser_parse GPSData)
                (s\<lparr>g_GPSParser := CGPSParser_parse X GPSData (g_GPSParser s)\<rparr>)
      in s\<lparr>s_gpsDataStreamActive := True\<rparr>)"

text \<open>The \<^verbatim>\<open>while(GPS_SERIAL.available())\<close> of lines 172-197.\<close>

function gps_drain :: "build \<Rightarrow> 'p collaborators \<Rightarrow> 'p state \<Rightarrow> 'p state" where
  "gps_drain B X s =
     (if available s \<noteq> 0 then
        (let GPSDataLen = available s;
             GPSDataLen = (if GPSDataLen > sizeof_GPSData - 1
                           then sizeof_GPSData - 1 else GPSDataLen);
             (GPSData, s') = readBytes GPSDataLen s
         in if length GPSData \<noteq> 0
            then gps_drain B X (gps_chunk B X GPSData s')
            else gps_drain B X s')
      else s)"
  by pat_completeness auto
termination
  by (relation "measure (\<lambda>(B, X, s). length (GPS_SERIAL s))")
     (auto simp: available_def readBytes_def gps_chunk_def emit_def sizeof_GPSData_def
           split: if_splits)

text \<open>
  What one pass of the loop is given from outside: the bytes that arrived on
  \<^verbatim>\<open>GPS_SERIAL\<close> since the pass before, and what \<^verbatim>\<open>getState() == CMilliTimer::expired\<close>
  answers for each of the two timers (\<^verbatim>\<open>CMilliTimer\<close> is not in the sources).
\<close>

record loop_in =
  arrived :: "8 word list"
  telemetry_expired :: bool
  timeCheck_expired :: bool

text \<open>Lines 164-169.\<close>

definition loop_settings :: "build \<Rightarrow> 'p state \<Rightarrow> 'p state" where
  "loop_settings B s =
     (if \<not> settingsLoaded s then (loadSettings B s)\<lparr>settingsLoaded := True\<rparr> else s)"

text \<open>Lines 199-207.\<close>

definition loop_ticks :: "'p state \<Rightarrow> 'p state" where
  "loop_ticks s =
     emits [g_telemetryComm_tick, g_telemetry_tick, g_beepController_tick,
            g_doorController_tick] s"

text \<open>Lines 209-232.\<close>

definition loop_telemetry :: "loop_in \<Rightarrow> 'p state \<Rightarrow> 'p state" where
  "loop_telemetry i s =
     (if telemetry_expired i then
        (let s = s\<lparr>g_heartbeat := \<not> g_heartbeat s\<rparr>;
             s = emit (digitalWrite_PIN_HEARTBEAT_LED (g_heartbeat s)) s;
             s = emit (CMilliTimer_start g_telemetryUpdateTimer TELEMETRY_UPDATE) s;
             s = emits [g_telemetry_transmissionStart,
                        g_telemetry_sendTerm telemetry_tag_version,
                        g_telemetry_sendTerm TELEMETRY_VERSION_01,
                        g_telemetry_transmissionEnd] s;
             s = sendErrors s
         in emits [g_sunCalc_sendTelemetry, g_doorController_sendTelemetry,
                   g_lightController_sendTelemetry] s)
      else s)"

text \<open>Lines 234-265.\<close>

definition loop_timeCheck ::
  "build \<Rightarrow> 'p collaborators \<Rightarrow> TelemetryTags \<Rightarrow> loop_in \<Rightarrow> 'p state \<Rightarrow> 'p state" where
  "loop_timeCheck B X T i s =
     (if timeCheck_expired i then
        (let s = (if m_GPSLocked X (g_GPSParser s)
                  then emit (CMilliTimer_start g_timeCheckTimer TIME_CHECK_UPDATE_GPS_LOCK) s
                  else emit (CMilliTimer_start g_timeCheckTimer TIME_CHECK_UPDATE_NO_GPS_LOCK) s);
             s = (if \<not> s_gpsDataStreamActive s then
                    reportError B T (telemetry_error_GPS_no_data T) True
                      (emit g_GPSData_clear
                         (s\<lparr>g_GPSParser := CGPSData_clear X (g_GPSParser s)\<rparr>))
                  else reportError B T (telemetry_error_GPS_no_data T) False s);
             s = s\<lparr>s_gpsDataStreamActive := False\<rparr>;
             s = emit g_sunCalc_processGPSData s
         in if CSunCalc_processGPSData X (g_GPSParser s)
            then emit g_lightController_checkTime (emit g_doorController_checkTime s)
            else s)
      else s)"

definition loop ::
  "build \<Rightarrow> 'p collaborators \<Rightarrow> TelemetryTags \<Rightarrow> loop_in \<Rightarrow> 'p state \<Rightarrow> 'p state" where
  "loop B X T i s =
     loop_timeCheck B X T i
       (loop_telemetry i (loop_ticks (gps_drain B X (loop_settings B s))))"

text \<open>
  The host calls \<^verbatim>\<open>loop()\<close> forever; \<open>run\<close> is a finite stretch of that, one
  \<open>loop_in\<close> per pass, the bytes of each pass arriving before it.
\<close>

fun run ::
  "build \<Rightarrow> 'p collaborators \<Rightarrow> TelemetryTags \<Rightarrow> loop_in list \<Rightarrow> 'p state \<Rightarrow> 'p state" where
  "run B X T [] s = s"
| "run B X T (i # is) s = run B X T is (loop B X T i (receive (arrived i) s))"


subsection \<open>Vocabulary of the claims\<close>

text \<open>
  Modelled from the spec: the values of the enumerators are not in the sources; the spec
  maps each error kind to a bit position of one fixed-width word, so a kind's tag is one
  of the sixteen single-bit masks.
\<close>

definition kind_mask :: "nat \<Rightarrow> 16 word" where
  "kind_mask n = push_bit n 1"

definition one_bit :: "16 word \<Rightarrow> bool" where
  "one_bit k = (k \<in> set (map kind_mask [0..<16]))"

text \<open>The bit of kind \<open>k\<close> is 1 in the register.\<close>

definition is_set :: "16 word \<Rightarrow> 'p state \<Rightarrow> bool" where
  "is_set k s = (s_errorFlags s AND k \<noteq> 0)"

text \<open>A sequence of calls of \<^verbatim>\<open>reportError\<close>, and what the last call for a kind asserted.\<close>

fun reports ::
  "build \<Rightarrow> TelemetryTags \<Rightarrow> (16 word \<times> bool) list \<Rightarrow> 'p state \<Rightarrow> 'p state" where
  "reports B T [] s = s"
| "reports B T ((k, b) # rs) s = reports B T rs (reportError B T k b s)"

fun last_report :: "16 word \<Rightarrow> (16 word \<times> bool) list \<Rightarrow> bool option" where
  "last_report k [] = None"
| "last_report k ((k', b) # rs) =
     (case last_report k rs of
        Some b' \<Rightarrow> Some b'
      | None \<Rightarrow> if k' = k then Some b else None)"

text \<open>
  Concrete collaborators for the runs that instantiate the theorems: an assignment of one
  bit to each enumerator, and a parser whose whole state is its lock, taken when a chunk
  holds the byte 65 and dropped by \<open>clear\<close>.
\<close>

definition example_tags :: TelemetryTags where
  "example_tags =
     \<lparr>telemetry_error_GPS_no_data = 1,
      telemetry_error_GPS_bad_data = 2,
      telemetry_error_GPS_not_locked = 4,
      telemetry_error_suncalc_invalid_time = 8,
      telemetry_error_no_door_motor = 16,
      telemetry_error_door_motor_unknown_state = 32,
      telemetry_error_door_motor_unknown_not_responding = 64\<rparr>"

definition example_collaborators :: "bool collaborators" where
  "example_collaborators =
     \<lparr>CGPSParser_parse = (\<lambda>bs p. p \<or> 65 \<in> set bs),
      m_GPSLocked = (\<lambda>p. p),
      CGPSData_clear = (\<lambda>p. False),
      CSunCalc_processGPSData = (\<lambda>p. p)\<rparr>"

text \<open>What one pass is given, for the concrete runs.\<close>

definition pass :: "8 word list \<Rightarrow> bool \<Rightarrow> bool \<Rightarrow> loop_in" where
  "pass bs tel tc = \<lparr>arrived = bs, telemetry_expired = tel, timeCheck_expired = tc\<rparr>"

text \<open>
  The reads of the drain loop on a receive buffer: the buffer cut, front first, into
  pieces of \<open>sizeof(GPSData) - 1 = 255\<close> bytes, the last one shorter
  (\<open>drop 254 bs\<close> is what is left of \<open>b # bs\<close> after its first 255 bytes).
\<close>

fun chunks255 :: "8 word list \<Rightarrow> 8 word list list" where
  "chunks255 [] = []"
| "chunks255 (b # bs) = take 255 (b # bs) # chunks255 (drop 254 bs)"

text \<open>The parser after it was handed the chunks \<open>cs\<close>, one call each, in order.\<close>

definition parse_all :: "'p collaborators \<Rightarrow> 8 word list list \<Rightarrow> 'p \<Rightarrow> 'p" where
  "parse_all X cs p = foldl (\<lambda>p c. CGPSParser_parse X c p) p cs"

text \<open>Classes of events, to read one kind of call off the trace of a pass.\<close>

fun is_debug :: "event \<Rightarrow> bool" where
  "is_debug (DEBUG_SERIAL_print _) = True"
| "is_debug (DEBUG_SERIAL_println _) = True"
| "is_debug DEBUG_SERIAL_println_empty = True"
| "is_debug _ = False"

definition calls :: "event list \<Rightarrow> event list" where
  "calls es = filter (\<lambda>e. \<not> is_debug e) es"

fun is_parse :: "event \<Rightarrow> bool" where
  "is_parse (g_GPSParser_parse _) = True"
| "is_parse _ = False"

fun is_beep :: "event \<Rightarrow> bool" where
  "is_beep (g_beepController_beep _ _ _ _) = True"
| "is_beep _ = False"

fun is_telemetry_task :: "event \<Rightarrow> bool" where
  "is_telemetry_task (digitalWrite_PIN_HEARTBEAT_LED _) = True"
| "is_telemetry_task (CMilliTimer_start t _) = (t = g_telemetryUpdateTimer)"
| "is_telemetry_task g_telemetry_transmissionStart = True"
| "is_telemetry_task (g_telemetry_sendTerm _) = True"
| "is_telemetry_task g_telemetry_transmissionEnd = True"
| "is_telemetry_task g_sunCalc_sendTelemetry = True"
| "is_telemetry_task g_doorController_sendTelemetry = True"
| "is_telemetry_task g_lightController_sendTelemetry = True"
| "is_telemetry_task _ = False"

fun is_checkTime :: "event \<Rightarrow> bool" where
  "is_checkTime g_doorController_checkTime = True"
| "is_checkTime g_lightController_checkTime = True"
| "is_checkTime _ = False"

fun is_timeCheck_start :: "event \<Rightarrow> bool" where
  "is_timeCheck_start (CMilliTimer_start t _) = (t = g_timeCheckTimer)"
| "is_timeCheck_start _ = False"

text \<open>The two console lines that open the report of a transition.\<close>

definition SET_ERROR :: event where
  "SET_ERROR = DEBUG_SERIAL_print (F ''*** SET ERROR: '')"

definition CLEAR_ERROR :: event where
  "CLEAR_ERROR = DEBUG_SERIAL_print (F ''*** CLEAR ERROR: '')"

text \<open>
  Receiver bytes have come since the time check last reset the flag: the flag is up, or
  bytes wait in the buffer (the drain of the pass will raise the flag for them).
\<close>

definition fresh_input :: "'p state \<Rightarrow> bool" where
  "fresh_input s = (s_gpsDataStreamActive s \<or> GPS_SERIAL s \<noteq> [])"

text \<open>The state of a pass when it reaches the telemetry block, and the time check.\<close>

definition before_telemetry :: "build \<Rightarrow> 'p collaborators \<Rightarrow> 'p state \<Rightarrow> 'p state" where
  "before_telemetry B X s = loop_ticks (gps_drain B X (loop_settings B s))"

definition before_timeCheck ::
  "build \<Rightarrow> 'p collaborators \<Rightarrow> loop_in \<Rightarrow> 'p state \<Rightarrow> 'p state" where
  "before_timeCheck B X i s = loop_telemetry i (before_telemetry B X s)"

text \<open>The enumerators the \<^verbatim>\<open>switch\<close> of \<^verbatim>\<open>reportError\<close> names, in its order.\<close>

definition named_tags :: "TelemetryTags \<Rightarrow> 16 word list" where
  "named_tags T =
     [telemetry_error_GPS_no_data T, telemetry_error_GPS_bad_data T,
      telemetry_error_GPS_not_locked T, telemetry_error_suncalc_invalid_time T,
      telemetry_error_no_door_motor T, telemetry_error_door_motor_unknown_state T,
      telemetry_error_door_motor_unknown_not_responding T]"

text \<open>
  Modelled from the spec: \<^verbatim>\<open>CGPSData::clear()\<close> is not in the sources; the spec has the
  fix state expose "a lock boolean and a \<^verbatim>\<open>clear()\<close> to reset stale state", so a cleared
  fix is not locked.
\<close>

definition clear_resets_lock :: "'p collaborators \<Rightarrow> bool" where
  "clear_resets_lock X = (\<forall>p. \<not> m_GPSLocked X (CGPSData_clear X p))"

subsection \<open>The events of each block of a pass\<close>

definition loadSettings_events :: "build \<Rightarrow> int \<Rightarrow> event list" where
  "loadSettings_events B v =
     (if DEBUG_SETTINGS B
      then [DEBUG_SERIAL_print (F ''Load settings checking header version: ''),
            DEBUG_SERIAL_print (String_of_int v), DEBUG_SERIAL_print (F '' - '')]
      else []) @
     (if v \<noteq> GARYCOOPER_DATA_VERSION
      then (if DEBUG_SETTINGS B
            then [DEBUG_SERIAL_println (F ''INCORRECT.''),
                  DEBUG_SERIAL_println (F ''Saving default settings.''),
                  DEBUG_SERIAL_print (F ''Save settings... '')]
            else []) @
           [g_saveController_updateHeader GARYCOOPER_DATA_VERSION, g_saveController_rewind,
            g_doorController_saveSettings True, g_lightController_saveSettings True] @
           (if DEBUG_SETTINGS B then [DEBUG_SERIAL_println (F ''complete.'')] else [])
      else (if DEBUG_SETTINGS B then [DEBUG_SERIAL_println (F ''CORRECT.'')] else [])) @
     (if DEBUG_SETTINGS B then [DEBUG_SERIAL_println (F ''Loading settings... '')] else []) @
     [g_saveController_rewind, g_doorController_loadSettings, g_lightController_loadSettings] @
     (if DEBUG_SETTINGS B then [DEBUG_SERIAL_println (F ''Load settings complete.'')] else [])"

definition settings_events :: "build \<Rightarrow> 'p state \<Rightarrow> event list" where
  "settings_events B s =
     (if settingsLoaded s then [] else loadSettings_events B (stored_version s))"

definition chunk_events :: "build \<Rightarrow> 8 word list \<Rightarrow> event list" where
  "chunk_events B GPSData =
     (if DEBUG_RAW_GPS B
      then [DEBUG_SERIAL_print (String_of_cstr (takeWhile (\<lambda>b. b \<noteq> 0) GPSData))]
      else []) @ [g_GPSParser_parse GPSData]"

definition drain_events :: "build \<Rightarrow> 8 word list \<Rightarrow> event list" where
  "drain_events B bs = concat (map (chunk_events B) (chunks255 bs))"

definition tick_events :: "event list" where
  "tick_events =
     [g_telemetryComm_tick, g_telemetry_tick, g_beepController_tick, g_doorController_tick]"

definition telemetry_events :: "bool \<Rightarrow> 16 word \<Rightarrow> event list" where
  "telemetry_events heartbeat flags =
     [digitalWrite_PIN_HEARTBEAT_LED heartbeat,
      CMilliTimer_start g_telemetryUpdateTimer TELEMETRY_UPDATE,
      g_telemetry_transmissionStart,
      g_telemetry_sendTerm telemetry_tag_version,
      g_telemetry_sendTerm TELEMETRY_VERSION_01,
      g_telemetry_transmissionEnd,
      g_telemetry_transmissionStart,
      g_telemetry_sendTerm telemetry_tag_error_flags,
      g_telemetry_sendTerm (term_uint16 flags),
      g_telemetry_transmissionEnd,
      g_sunCalc_sendTelemetry,
      g_doorController_sendTelemetry,
      g_lightController_sendTelemetry]"

definition timeCheck_parser :: "'p collaborators \<Rightarrow> 'p state \<Rightarrow> 'p" where
  "timeCheck_parser X s =
     (if s_gpsDataStreamActive s then g_GPSParser s else CGPSData_clear X (g_GPSParser s))"

definition timeCheck_flags :: "TelemetryTags \<Rightarrow> 'p state \<Rightarrow> 16 word" where
  "timeCheck_flags T s =
     (if s_gpsDataStreamActive s
      then (if is_set (telemetry_error_GPS_no_data T) s
            then s_errorFlags s AND NOT (telemetry_error_GPS_no_data T) else s_errorFlags s)
      else (if is_set (telemetry_error_GPS_no_data T) s
            then s_errorFlags s else s_errorFlags s OR telemetry_error_GPS_no_data T))"

definition timeCheck_events ::
  "build \<Rightarrow> 'p collaborators \<Rightarrow> TelemetryTags \<Rightarrow> 'p state \<Rightarrow> event list" where
  "timeCheck_events B X T s =
     [CMilliTimer_start g_timeCheckTimer
        (if m_GPSLocked X (g_GPSParser s)
         then TIME_CHECK_UPDATE_GPS_LOCK else TIME_CHECK_UPDATE_NO_GPS_LOCK)] @
     (if s_gpsDataStreamActive s
      then (if is_set (telemetry_error_GPS_no_data T) s
            then report_events B T (telemetry_error_GPS_no_data T) False else [])
      else [g_GPSData_clear] @
           (if is_set (telemetry_error_GPS_no_data T) s
            then [] else report_events B T (telemetry_error_GPS_no_data T) True)) @
     [g_sunCalc_processGPSData] @
     (if CSunCalc_processGPSData X (timeCheck_parser X s)
      then [g_doorController_checkTime, g_lightController_checkTime] else [])"

section \<open>Lemmas\<close>

subsection \<open>Single-bit masks\<close>

lemma one_bitE:
  assumes "one_bit k"
  obtains n where "n < 16" "k = 2 ^ n"
  using assms by (auto simp: one_bit_def kind_mask_def)

lemma one_bitI: "n < 16 \<Longrightarrow> one_bit (2 ^ n)"
  by (simp add: one_bit_def kind_mask_def)

lemma one_bit_1: "one_bit 1"
  using one_bitI [of 0] by simp

lemma one_bit_4: "one_bit 4"
  using one_bitI [of 2] by simp

lemma one_bit_nonzero: "one_bit k \<Longrightarrow> k \<noteq> 0"
  by (erule one_bitE) simp

lemma and_pow_ne0: "((f::16 word) AND 2 ^ n \<noteq> 0) = bit f n"
  by (simp add: and_exp_eq_0_iff_not_bit)

lemma pow_inj16: "n < 16 \<Longrightarrow> m < 16 \<Longrightarrow> ((2 ^ n :: 16 word) = 2 ^ m) = (n = m)"
proof
  assume "(2 ^ n :: 16 word) = 2 ^ m"
  then have "bit (2 ^ n :: 16 word) m = bit (2 ^ m :: 16 word) m" by simp
  then show "n = m" if "n < 16" "m < 16" using that by (simp add: bit_simps)
qed simp

subsection \<open>Transitions of the error register\<close>

lemma new_events_emits: "new_events s (emits es (s\<lparr>s_errorFlags := f\<rparr>)) = es"
  by (simp add: new_events_def emits_def)

lemma reportError_set_transition:
  "\<not> is_set k s \<Longrightarrow>
   reportError B T k True s =
     emits (report_events B T k True) (s\<lparr>s_errorFlags := s_errorFlags s OR k\<rparr>)"
  by (simp add: reportError_def is_set_def)

lemma reportError_clear_transition:
  "is_set k s \<Longrightarrow>
   reportError B T k False s =
     emits (report_events B T k False) (s\<lparr>s_errorFlags := s_errorFlags s AND NOT k\<rparr>)"
  by (simp add: reportError_def is_set_def)

lemma reportError_set_noop: "is_set k s \<Longrightarrow> reportError B T k True s = s"
  by (simp add: reportError_def is_set_def)

lemma reportError_clear_noop: "\<not> is_set k s \<Longrightarrow> reportError B T k False s = s"
  by (simp add: reportError_def is_set_def)

lemma is_set_after_set: "k \<noteq> 0 \<Longrightarrow> is_set k (reportError B T k True s)"
  by (simp add: reportError_def is_set_def emits_def word_bw_assocs)

lemma is_set_reportError:
  assumes "one_bit k" "one_bit k'"
  shows "is_set k (reportError B T k' b s) = (if k' = k then b else is_set k s)"
proof -
  from assms obtain n m where n: "n < 16" "k = 2 ^ n" and m: "m < 16" "k' = 2 ^ m"
    by (elim one_bitE)
  show ?thesis
    using n m
    by (auto simp: is_set_def reportError_def emits_def and_pow_ne0 bit_simps pow_inj16)
qed

lemma is_set_reports:
  "one_bit k \<Longrightarrow> list_all (\<lambda>r. one_bit (fst r)) rs \<Longrightarrow>
   is_set k (reports B T rs s) =
     (case last_report k rs of None \<Rightarrow> is_set k s | Some b \<Rightarrow> b)"
proof (induction rs arbitrary: s)
  case Nil
  show ?case by simp
next
  case (Cons r rs)
  obtain k' b where r: "r = (k', b)" by (cases r)
  with Cons show ?case
    by (simp add: is_set_reportError split: option.splits)
qed

lemma count_report_events_set:
  "count_list (report_events B T k True) (DEBUG_SERIAL_print (F ''*** SET ERROR: '')) = 1"
  by (simp add: report_events_def)

subsection \<open>New events of a step\<close>

lemma new_events_eqI: "trace s1 = trace s @ a \<Longrightarrow> new_events s s1 = a"
  by (simp add: new_events_def)

lemma new_events_trans:
  "trace s1 = trace s @ a \<Longrightarrow> trace s2 = trace s1 @ b \<Longrightarrow> new_events s s2 = a @ b"
  by (simp add: new_events_def)

subsection \<open>Settings\<close>

lemma saveSettings_eq:
  "saveSettings B d s =
     s\<lparr>stored_version := GARYCOOPER_DATA_VERSION,
       trace := trace s @
         (if DEBUG_SETTINGS B then [DEBUG_SERIAL_print (F ''Save settings... '')] else []) @
         [g_saveController_updateHeader GARYCOOPER_DATA_VERSION, g_saveController_rewind,
          g_doorController_saveSettings d, g_lightController_saveSettings d] @
         (if DEBUG_SETTINGS B then [DEBUG_SERIAL_println (F ''complete.'')] else [])\<rparr>"
  by (simp add: saveSettings_def debug_settings_def updateHeader_def emit_def emits_def)

lemma loadSettings_eq:
  "loadSettings B s =
     s\<lparr>stored_version := GARYCOOPER_DATA_VERSION,
       trace := trace s @ loadSettings_events B (stored_version s)\<rparr>"
  by (simp add: loadSettings_def saveSettings_eq debug_settings_def emit_def emits_def
        g_saveController_getDataVersion_def loadSettings_events_def)

lemma calls_saveSettings:
  "calls (new_events s (saveSettings B d s)) =
     [g_saveController_updateHeader GARYCOOPER_DATA_VERSION, g_saveController_rewind,
      g_doorController_saveSettings d, g_lightController_saveSettings d]"
  by (simp add: saveSettings_eq calls_def new_events_def)

lemma calls_loadSettings_events:
  "calls (loadSettings_events B v) =
     (if v \<noteq> GARYCOOPER_DATA_VERSION
      then [g_saveController_updateHeader GARYCOOPER_DATA_VERSION, g_saveController_rewind,
            g_doorController_saveSettings True, g_lightController_saveSettings True]
      else []) @
     [g_saveController_rewind, g_doorController_loadSettings, g_lightController_loadSettings]"
  by (simp add: loadSettings_events_def calls_def)

lemma calls_loadSettings:
  "calls (new_events s (loadSettings B s)) =
     (if stored_version s \<noteq> GARYCOOPER_DATA_VERSION
      then [g_saveController_updateHeader GARYCOOPER_DATA_VERSION, g_saveController_rewind,
            g_doorController_saveSettings True, g_lightController_saveSettings True]
      else []) @
     [g_saveController_rewind, g_doorController_loadSettings, g_lightController_loadSettings]"
  by (simp add: loadSettings_eq calls_loadSettings_events new_events_def)

lemma stored_version_loadSettings:
  "stored_version (loadSettings B s) = GARYCOOPER_DATA_VERSION"
  by (simp add: loadSettings_eq)

subsection \<open>The drain loop\<close>

lemma chunks255_Cons: "bs \<noteq> [] \<Longrightarrow> chunks255 bs = take 255 bs # chunks255 (drop 255 bs)"
  by (cases bs) simp_all

lemma chunks255_short: "bs \<noteq> [] \<Longrightarrow> length bs \<le> 255 \<Longrightarrow> chunks255 bs = [bs]"
  by (simp add: chunks255_Cons)

lemma concat_chunks255: "concat (chunks255 bs) = bs"
proof (induction bs rule: chunks255.induct)
  case 1
  show ?case by simp
next
  case (2 b bs)
  have "take 254 bs @ drop 254 bs = bs" by (rule append_take_drop_id)
  with 2 show ?case by simp
qed

lemma list_all_chunks255: "list_all (\<lambda>c. c \<noteq> [] \<and> length c \<le> 255) (chunks255 bs)"
  by (induction bs rule: chunks255.induct) simp_all

lemma gps_drain_Nil: "GPS_SERIAL s = [] \<Longrightarrow> gps_drain B X s = s"
  by (subst gps_drain.simps) (simp add: available_def del: gps_drain.simps)

lemma gps_drain_Cons:
  "GPS_SERIAL s \<noteq> [] \<Longrightarrow>
   gps_drain B X s =
     gps_drain B X
       (gps_chunk B X (take 255 (GPS_SERIAL s)) (s\<lparr>GPS_SERIAL := drop 255 (GPS_SERIAL s)\<rparr>))"
  by (subst gps_drain.simps)
     (auto simp: available_def readBytes_def sizeof_GPSData_def Let_def min_def
           simp del: gps_drain.simps)

lemma gps_drain_eq:
  "gps_drain B X s =
     s\<lparr>s_gpsDataStreamActive := s_gpsDataStreamActive s \<or> GPS_SERIAL s \<noteq> [],
       g_GPSParser := parse_all X (chunks255 (GPS_SERIAL s)) (g_GPSParser s),
       GPS_SERIAL := [],
       trace := trace s @ drain_events B (GPS_SERIAL s)\<rparr>"
proof (induction "length (GPS_SERIAL s)" arbitrary: s rule: less_induct)
  case less
  show ?case
  proof (cases "GPS_SERIAL s = []")
    case True
    then show ?thesis
      by (simp add: gps_drain_Nil parse_all_def drain_events_def del: gps_drain.simps)
  next
    case False
    let ?s' = "gps_chunk B X (take 255 (GPS_SERIAL s))
                 (s\<lparr>GPS_SERIAL := drop 255 (GPS_SERIAL s)\<rparr>)"
    have "length (GPS_SERIAL ?s') < length (GPS_SERIAL s)"
      using False by (simp add: gps_chunk_def emit_def Let_def)
    from less [OF this] False show ?thesis
      by (simp add: gps_drain_Cons chunks255_Cons [OF False] gps_chunk_def emit_def Let_def
            parse_all_def chunk_events_def drain_events_def del: gps_drain.simps)
  qed
qed

lemma drain_events_only:
  "e \<in> set (drain_events B bs) \<Longrightarrow>
     (\<exists>x. e = DEBUG_SERIAL_print (String_of_cstr x)) \<or> (\<exists>x. e = g_GPSParser_parse x)"
  by (auto simp: drain_events_def chunk_events_def split: if_splits)

lemma drain_events_Nil: "drain_events B [] = []"
  by (simp add: drain_events_def)

lemma filter_is_parse_chunks:
  "filter is_parse (concat (map (chunk_events B) cs)) = map g_GPSParser_parse cs"
  by (induction cs) (simp_all add: chunk_events_def)

subsection \<open>The blocks of a pass\<close>

lemma before_telemetry_eq:
  "before_telemetry B X s =
     s\<lparr>settingsLoaded := True,
       s_gpsDataStreamActive := fresh_input s,
       g_GPSParser := parse_all X (chunks255 (GPS_SERIAL s)) (g_GPSParser s),
       GPS_SERIAL := [],
       stored_version :=
         (if settingsLoaded s then stored_version s else GARYCOOPER_DATA_VERSION),
       trace := trace s @ settings_events B s @ drain_events B (GPS_SERIAL s) @ tick_events\<rparr>"
  by (simp add: before_telemetry_def loop_ticks_def gps_drain_eq loop_settings_def
        loadSettings_eq emits_def settings_events_def tick_events_def fresh_input_def
        del: gps_drain.simps)

lemma loop_telemetry_eq:
  "loop_telemetry i s =
     (if telemetry_expired i
      then s\<lparr>g_heartbeat := \<not> g_heartbeat s,
             trace := trace s @ telemetry_events (\<not> g_heartbeat s) (s_errorFlags s)\<rparr>
      else s)"
  by (simp add: loop_telemetry_def sendErrors_def emit_def emits_def telemetry_events_def)

lemma before_timeCheck_eq:
  "before_timeCheck B X i s =
     s\<lparr>settingsLoaded := True,
       s_gpsDataStreamActive := fresh_input s,
       g_heartbeat := (if telemetry_expired i then \<not> g_heartbeat s else g_heartbeat s),
       g_GPSParser := parse_all X (chunks255 (GPS_SERIAL s)) (g_GPSParser s),
       GPS_SERIAL := [],
       stored_version :=
         (if settingsLoaded s then stored_version s else GARYCOOPER_DATA_VERSION),
       trace := trace s @ settings_events B s @ drain_events B (GPS_SERIAL s) @ tick_events @
         (if telemetry_expired i
          then telemetry_events (\<not> g_heartbeat s) (s_errorFlags s) else [])\<rparr>"
  by (simp add: before_timeCheck_def before_telemetry_eq loop_telemetry_eq)

lemma loop_timeCheck_eq:
  "loop_timeCheck B X T i s =
     (if timeCheck_expired i
      then s\<lparr>s_gpsDataStreamActive := False,
             s_errorFlags := timeCheck_flags T s,
             g_GPSParser := timeCheck_parser X s,
             trace := trace s @ timeCheck_events B X T s\<rparr>
      else s)"
  by (simp add: loop_timeCheck_def reportError_def is_set_def emit_def emits_def Let_def
        timeCheck_events_def timeCheck_parser_def timeCheck_flags_def)

lemma loop_eq: "loop B X T i s = loop_timeCheck B X T i (before_timeCheck B X i s)"
  by (simp add: loop_def before_timeCheck_def before_telemetry_def del: gps_drain.simps)

lemma before_timeCheck_fields:
  "s_gpsDataStreamActive (before_timeCheck B X i s) = fresh_input s"
  "s_errorFlags (before_timeCheck B X i s) = s_errorFlags s"
  "GPS_SERIAL (before_timeCheck B X i s) = []"
  "is_set k (before_timeCheck B X i s) = is_set k s"
  "g_GPSParser (before_timeCheck B X i s) =
     parse_all X (chunks255 (GPS_SERIAL s)) (g_GPSParser s)"
  by (simp_all add: before_timeCheck_eq is_set_def)

lemma new_events_loop:
  "new_events s (loop B X T i s) =
     settings_events B s @ drain_events B (GPS_SERIAL s) @ tick_events @
     (if telemetry_expired i
      then telemetry_events (\<not> g_heartbeat s) (s_errorFlags s) else []) @
     (if timeCheck_expired i
      then timeCheck_events B X T (before_timeCheck B X i s) else [])"
  by (simp add: loop_eq loop_timeCheck_eq new_events_def) (simp add: before_timeCheck_eq)

lemma loop_fields:
  "s_gpsDataStreamActive (loop B X T i s) = (\<not> timeCheck_expired i \<and> fresh_input s)"
  "GPS_SERIAL (loop B X T i s) = []"
  "s_errorFlags (loop B X T i s) =
     (if timeCheck_expired i then timeCheck_flags T (before_timeCheck B X i s)
      else s_errorFlags s)"
  "g_GPSParser (loop B X T i s) =
     (if timeCheck_expired i then timeCheck_parser X (before_timeCheck B X i s)
      else g_GPSParser (before_timeCheck B X i s))"
  "g_heartbeat (loop B X T i s) =
     (if telemetry_expired i then \<not> g_heartbeat s else g_heartbeat s)"
  by (simp_all add: loop_eq loop_timeCheck_eq before_timeCheck_fields)
     (simp add: before_timeCheck_eq)

lemma fresh_input_loop:
  "fresh_input (loop B X T i s) = (\<not> timeCheck_expired i \<and> fresh_input s)"
  by (simp add: fresh_input_def [of "loop B X T i s"] loop_fields)

subsection \<open>Reading one kind of call off a pass\<close>

lemma filter_settings_events:
  "filter is_telemetry_task (settings_events B s) = []"
  "filter is_checkTime (settings_events B s) = []"
  "filter is_timeCheck_start (settings_events B s) = []"
  "filter is_parse (settings_events B s) = []"
  by (simp_all add: settings_events_def loadSettings_events_def)

lemma filter_drain_events:
  "filter is_telemetry_task (drain_events B bs) = []"
  "filter is_checkTime (drain_events B bs) = []"
  "filter is_timeCheck_start (drain_events B bs) = []"
  by (auto simp: filter_empty_conv dest!: drain_events_only)

lemma filter_is_parse_drain_events:
  "filter is_parse (drain_events B bs) = map g_GPSParser_parse (chunks255 bs)"
  by (simp add: drain_events_def filter_is_parse_chunks)

lemma filter_tick_events:
  "filter is_telemetry_task tick_events = []"
  "filter is_checkTime tick_events = []"
  "filter is_timeCheck_start tick_events = []"
  "filter is_parse tick_events = []"
  by (simp_all add: tick_events_def)

lemma filter_telemetry_events:
  "filter is_telemetry_task (telemetry_events h f) = telemetry_events h f"
  "filter is_checkTime (telemetry_events h f) = []"
  "filter is_timeCheck_start (telemetry_events h f) = []"
  "filter is_parse (telemetry_events h f) = []"
  by (simp_all add: telemetry_events_def)

lemma filter_report_events:
  "filter is_telemetry_task (report_events B T k b) = []"
  "filter is_checkTime (report_events B T k b) = []"
  "filter is_timeCheck_start (report_events B T k b) = []"
  "filter is_parse (report_events B T k b) = []"
  by (simp_all add: report_events_def)

lemma filter_timeCheck_events:
  "filter is_telemetry_task (timeCheck_events B X T s) = []"
  "filter is_checkTime (timeCheck_events B X T s) =
     (if CSunCalc_processGPSData X (timeCheck_parser X s)
      then [g_doorController_checkTime, g_lightController_checkTime] else [])"
  "filter is_timeCheck_start (timeCheck_events B X T s) =
     [CMilliTimer_start g_timeCheckTimer
        (if m_GPSLocked X (g_GPSParser s)
         then TIME_CHECK_UPDATE_GPS_LOCK else TIME_CHECK_UPDATE_NO_GPS_LOCK)]"
  "filter is_parse (timeCheck_events B X T s) = []"
  by (simp_all add: timeCheck_events_def filter_report_events)

lemmas filter_events =
  filter_settings_events filter_drain_events filter_is_parse_drain_events
  filter_tick_events filter_telemetry_events filter_timeCheck_events

subsection \<open>The no-data error over a stretch of passes\<close>

lemma count_settings_events:
  "count_list (settings_events B s) SET_ERROR = 0"
  "count_list (settings_events B s) CLEAR_ERROR = 0"
  by (simp_all add: settings_events_def loadSettings_events_def SET_ERROR_def CLEAR_ERROR_def)

lemma count_drain_events:
  "count_list (drain_events B bs) SET_ERROR = 0"
  "count_list (drain_events B bs) CLEAR_ERROR = 0"
  by (auto simp: SET_ERROR_def CLEAR_ERROR_def count_list_0_iff dest!: drain_events_only)

lemma count_tick_events:
  "count_list tick_events SET_ERROR = 0"
  "count_list tick_events CLEAR_ERROR = 0"
  by (simp_all add: tick_events_def SET_ERROR_def CLEAR_ERROR_def)

lemma count_telemetry_events:
  "count_list (telemetry_events h f) SET_ERROR = 0"
  "count_list (telemetry_events h f) CLEAR_ERROR = 0"
  by (simp_all add: telemetry_events_def SET_ERROR_def CLEAR_ERROR_def)

lemma count_report_events:
  "count_list (report_events B T k b) SET_ERROR = (if b then 1 else 0)"
  "count_list (report_events B T k b) CLEAR_ERROR = (if b then 0 else 1)"
  by (simp_all add: report_events_def SET_ERROR_def CLEAR_ERROR_def)

lemma count_timeCheck_events:
  "count_list (timeCheck_events B X T s) SET_ERROR =
     (if \<not> s_gpsDataStreamActive s \<and> \<not> is_set (telemetry_error_GPS_no_data T) s
      then 1 else 0)"
  "count_list (timeCheck_events B X T s) CLEAR_ERROR =
     (if s_gpsDataStreamActive s \<and> is_set (telemetry_error_GPS_no_data T) s
      then 1 else 0)"
  by (simp_all add: timeCheck_events_def count_report_events)
     (simp_all add: SET_ERROR_def CLEAR_ERROR_def)

lemmas count_events =
  count_settings_events count_drain_events count_tick_events count_telemetry_events
  count_timeCheck_events

lemma timeCheck_flags_reportError:
  "timeCheck_flags T s =
     s_errorFlags (reportError B T (telemetry_error_GPS_no_data T)
                     (\<not> s_gpsDataStreamActive s) s)"
  by (simp add: timeCheck_flags_def reportError_def is_set_def emits_def)

lemma is_set_timeCheck_flags:
  "telemetry_error_GPS_no_data T \<noteq> 0 \<Longrightarrow>
   (timeCheck_flags T s AND telemetry_error_GPS_no_data T \<noteq> 0) = (\<not> s_gpsDataStreamActive s)"
  by (simp add: timeCheck_flags_def is_set_def word_bw_assocs)

lemma is_set_loop:
  "telemetry_error_GPS_no_data T \<noteq> 0 \<Longrightarrow>
   is_set (telemetry_error_GPS_no_data T) (loop B X T i s) =
     (if timeCheck_expired i then \<not> fresh_input s
      else is_set (telemetry_error_GPS_no_data T) s)"
  using is_set_timeCheck_flags [of T "before_timeCheck B X i s"]
  by (simp add: is_set_def loop_fields before_timeCheck_fields)

lemma count_loop:
  "count_list (new_events s (loop B X T i s)) SET_ERROR =
     (if timeCheck_expired i \<and> \<not> fresh_input s \<and> \<not> is_set (telemetry_error_GPS_no_data T) s
      then 1 else 0)"
  "count_list (new_events s (loop B X T i s)) CLEAR_ERROR =
     (if timeCheck_expired i \<and> fresh_input s \<and> is_set (telemetry_error_GPS_no_data T) s
      then 1 else 0)"
  by (simp_all add: new_events_loop count_events before_timeCheck_fields)

lemma trace_loop_ex: "\<exists>es. trace (loop B X T i s) = trace s @ es"
  by (simp add: loop_eq loop_timeCheck_eq) (simp add: before_timeCheck_eq)

lemma receive_fields:
  "trace (receive bs s) = trace s"
  "settingsLoaded (receive bs s) = settingsLoaded s"
  "stored_version (receive bs s) = stored_version s"
  "g_heartbeat (receive bs s) = g_heartbeat s"
  "s_gpsDataStreamActive (receive bs s) = s_gpsDataStreamActive s"
  "s_errorFlags (receive bs s) = s_errorFlags s"
  "g_GPSParser (receive bs s) = g_GPSParser s"
  "GPS_SERIAL (receive bs s) = GPS_SERIAL s @ bs"
  "is_set k (receive bs s) = is_set k s"
  "fresh_input (receive bs s) = (fresh_input s \<or> bs \<noteq> [])"
  "new_events (receive bs s) s' = new_events s s'"
  by (auto simp: receive_def is_set_def fresh_input_def new_events_def)

lemma new_events_loop_receive:
  "new_events s (loop B X T i (receive bs s)) =
     settings_events B s @ drain_events B (GPS_SERIAL s @ bs) @ tick_events @
     (if telemetry_expired i
      then telemetry_events (\<not> g_heartbeat s) (s_errorFlags s) else []) @
     (if timeCheck_expired i
      then timeCheck_events B X T (before_timeCheck B X i (receive bs s)) else [])"
  using new_events_loop [of "receive bs s" B X T i]
  by (simp add: settings_events_def receive_fields)

lemma trace_run_ex: "\<exists>es. trace (run B X T js s) = trace s @ es"
proof (induction js arbitrary: s)
  case Nil
  show ?case by simp
next
  case (Cons j js)
  let ?s1 = "loop B X T j (receive (arrived j) s)"
  obtain a where a: "trace ?s1 = trace s @ a"
    using trace_loop_ex [of B X T j "receive (arrived j) s"] by (auto simp: receive_fields)
  obtain b where b: "trace (run B X T js ?s1) = trace ?s1 @ b"
    using Cons.IH [of ?s1] by auto
  show ?case using a b by simp
qed

lemma new_events_run_Cons:
  "new_events s (run B X T js (loop B X T j (receive bs s))) =
     new_events s (loop B X T j (receive bs s)) @
     new_events (loop B X T j (receive bs s))
       (run B X T js (loop B X T j (receive bs s)))"
proof -
  let ?s1 = "loop B X T j (receive bs s)"
  obtain a where a: "trace ?s1 = trace s @ a"
    using trace_loop_ex [of B X T j "receive bs s"] by (auto simp: receive_fields)
  obtain b where b: "trace (run B X T js ?s1) = trace ?s1 @ b"
    using trace_run_ex [of B X T js ?s1] by auto
  show ?thesis
    using new_events_trans [OF a b] new_events_eqI [OF a] new_events_eqI [OF b] by simp
qed

lemma count_loop_receive:
  "count_list (new_events s (loop B X T i (receive bs s))) SET_ERROR =
     (if timeCheck_expired i \<and> \<not> (fresh_input s \<or> bs \<noteq> []) \<and>
         \<not> is_set (telemetry_error_GPS_no_data T) s
      then 1 else 0)"
  "count_list (new_events s (loop B X T i (receive bs s))) CLEAR_ERROR =
     (if timeCheck_expired i \<and> (fresh_input s \<or> bs \<noteq> []) \<and>
         is_set (telemetry_error_GPS_no_data T) s
      then 1 else 0)"
  using count_loop [of "receive bs s" B X T i] by (simp_all add: receive_fields)

lemma run_append: "run B X T (js @ ks) s = run B X T ks (run B X T js s)"
  by (induction js arbitrary: s) simp_all

lemma silent_run:
  assumes "telemetry_error_GPS_no_data T \<noteq> 0"
  shows "\<not> fresh_input s \<Longrightarrow> list_all (\<lambda>j. arrived j = []) js \<Longrightarrow>
     count_list (new_events s (run B X T js s)) SET_ERROR =
       (if \<not> is_set (telemetry_error_GPS_no_data T) s \<and> list_ex timeCheck_expired js
        then 1 else 0)
   \<and> count_list (new_events s (run B X T js s)) CLEAR_ERROR = 0
   \<and> is_set (telemetry_error_GPS_no_data T) (run B X T js s) =
       (is_set (telemetry_error_GPS_no_data T) s \<or> list_ex timeCheck_expired js)
   \<and> \<not> fresh_input (run B X T js s)"
proof (induction js arbitrary: s)
  case Nil
  then show ?case by (simp add: new_events_def)
next
  case (Cons j js)
  let ?s1 = "loop B X T j (receive (arrived j) s)"
  have f1: "\<not> fresh_input ?s1"
    using Cons.prems by (simp add: fresh_input_loop receive_fields)
  have rest: "list_all (\<lambda>j. arrived j = []) js" using Cons.prems by simp
  note IH = Cons.IH [OF f1 rest]
  show ?case
    using IH Cons.prems assms
    by (simp add: new_events_run_Cons count_loop_receive is_set_loop receive_fields)
qed

lemma arriving_run:
  assumes "telemetry_error_GPS_no_data T \<noteq> 0"
  shows "list_all (\<lambda>j. arrived j \<noteq> []) js \<Longrightarrow>
     count_list (new_events s (run B X T js s)) CLEAR_ERROR =
       (if is_set (telemetry_error_GPS_no_data T) s \<and> list_ex timeCheck_expired js
        then 1 else 0)
   \<and> count_list (new_events s (run B X T js s)) SET_ERROR = 0
   \<and> is_set (telemetry_error_GPS_no_data T) (run B X T js s) =
       (is_set (telemetry_error_GPS_no_data T) s \<and> \<not> list_ex timeCheck_expired js)"
proof (induction js arbitrary: s)
  case Nil
  then show ?case by (simp add: new_events_def)
next
  case (Cons j js)
  let ?s1 = "loop B X T j (receive (arrived j) s)"
  have rest: "list_all (\<lambda>j. arrived j \<noteq> []) js" using Cons.prems by simp
  note IH = Cons.IH [OF rest, of ?s1]
  show ?case
    using IH Cons.prems assms
    by (simp add: new_events_run_Cons count_loop_receive is_set_loop receive_fields)
qed

lemma quiet_run:
  "list_all (\<lambda>j. \<not> timeCheck_expired j) js \<Longrightarrow>
     fresh_input (run B X T js s) = (fresh_input s \<or> \<not> list_all (\<lambda>j. arrived j = []) js)
   \<and> s_errorFlags (run B X T js s) = s_errorFlags s"
proof (induction js arbitrary: s)
  case Nil
  then show ?case by simp
next
  case (Cons j js)
  let ?s1 = "loop B X T j (receive (arrived j) s)"
  have rest: "list_all (\<lambda>j. \<not> timeCheck_expired j) js" using Cons.prems by simp
  have f1: "fresh_input ?s1 = (fresh_input s \<or> arrived j \<noteq> [])"
    using Cons.prems by (simp add: fresh_input_loop receive_fields)
  show ?case
    using Cons.IH [OF rest, of ?s1] Cons.prems f1
    by (auto simp: loop_fields receive_fields)
qed

lemma next_firing:
  assumes "telemetry_error_GPS_no_data T \<noteq> 0" "\<not> fresh_input s"
    "list_all (\<lambda>j. \<not> timeCheck_expired j) js" "timeCheck_expired i"
  shows "is_set (telemetry_error_GPS_no_data T) (run B X T (js @ [i]) s) =
           list_all (\<lambda>j. arrived j = []) (js @ [i])"
  using assms quiet_run [OF assms(3), of B X T s]
  by (simp add: run_append is_set_loop receive_fields)


subsection \<open>Beeps, and the lock over silent passes\<close>

lemma beepCount_named:
  "distinct (named_tags T) \<Longrightarrow> map (beepCount T) (named_tags T) = [1, 2, 3, 4, 5, 6, 7]"
  by (simp add: named_tags_def beepCount_def error_switch_def) metis

lemma filter_is_beep_report_events:
  "filter is_beep (report_events B T k b) =
     (if b \<and> BEEP_ON_ERROR B
      then [g_beepController_beep BEEP_FREQ_ERROR 100 50 (beepCount T k)] else [])"
  by (simp add: report_events_def)

lemma filter_is_debug_report_events:
  "filter is_debug (report_events B T k b) =
     [DEBUG_SERIAL_println_empty,
      DEBUG_SERIAL_print (F (if b then ''*** SET ERROR: '' else ''*** CLEAR ERROR: '')),
      DEBUG_SERIAL_println (errorString T k), DEBUG_SERIAL_println_empty]"
  by (simp add: report_events_def)

lemma parse_all_Nil: "parse_all X [] p = p"
  by (simp add: parse_all_def)

lemma silent_pass_parser:
  assumes "\<not> fresh_input s"
  shows "g_GPSParser (loop B X T i (receive [] s)) =
           (if timeCheck_expired i then CGPSData_clear X (g_GPSParser s) else g_GPSParser s)"
proof -
  have "GPS_SERIAL s = []" and "\<not> s_gpsDataStreamActive s"
    using assms by (simp_all add: fresh_input_def)
  then show ?thesis
    using assms
    by (simp add: loop_fields timeCheck_parser_def before_timeCheck_fields receive_fields
          parse_all_Nil)
qed

lemma silent_run_unlocked:
  assumes "clear_resets_lock X"
  shows "\<not> fresh_input s \<Longrightarrow> \<not> m_GPSLocked X (g_GPSParser s) \<Longrightarrow>
         list_all (\<lambda>j. arrived j = []) js \<Longrightarrow>
         \<not> m_GPSLocked X (g_GPSParser (run B X T js s)) \<and> \<not> fresh_input (run B X T js s)"
proof (induction js arbitrary: s)
  case Nil
  then show ?case by simp
next
  case (Cons j js)
  let ?s1 = "loop B X T j (receive [] s)"
  have j: "arrived j = []" and rest: "list_all (\<lambda>j. arrived j = []) js"
    using Cons.prems by simp_all
  have f1: "\<not> fresh_input ?s1"
    using Cons.prems by (simp add: fresh_input_loop receive_fields)
  have l1: "\<not> m_GPSLocked X (g_GPSParser ?s1)"
    using Cons.prems assms by (simp add: silent_pass_parser clear_resets_lock_def)
  show ?case
    using Cons.IH [OF f1 l1 rest] j by simp
qed
section \<open>The claims\<close>

subsection \<open>The error register\<close>

text \<open>
  C1. For a kind \<open>k\<close> whose tag is one bit of the register: a second
  \<open>reportError k True\<close> in a row changes nothing, and from a clear bit the two calls
  together update the mask once (\<open>OR k\<close>) and add exactly one report to the console, the
  one of \<open>report_events\<close>, with one \<^verbatim>\<open>*** SET ERROR: \<close> line; \<open>reportError k False\<close> on a
  clear bit returns the state as it was (no mask change, no event); and after any
  sequence of reports of one-bit kinds, the bit of \<open>k\<close> is 1 iff the last report for \<open>k\<close>
  asserted it (the bit keeps its value when the sequence has no report for \<open>k\<close>).
\<close>

theorem reportError_edge_triggered:
  assumes "one_bit k" and "list_all (\<lambda>r. one_bit (fst r)) rs"
  shows "reportError B T k True (reportError B T k True s) = reportError B T k True s
       \<and> (\<not> is_set k s \<longrightarrow>
            s_errorFlags (reportError B T k True (reportError B T k True s))
              = s_errorFlags s OR k
          \<and> new_events s (reportError B T k True (reportError B T k True s))
              = report_events B T k True
          \<and> count_list (new_events s (reportError B T k True (reportError B T k True s)))
              (DEBUG_SERIAL_print (F ''*** SET ERROR: '')) = 1
          \<and> reportError B T k False s = s)
       \<and> is_set k (reports B T rs s)
           = (case last_report k rs of None \<Rightarrow> is_set k s | Some b \<Rightarrow> b)"
proof -
  have nz: "k \<noteq> 0" using assms(1) by (rule one_bit_nonzero)
  have twice: "reportError B T k True (reportError B T k True s) = reportError B T k True s"
    using nz by (simp add: reportError_set_noop is_set_after_set)
  have fresh: "new_events s (reportError B T k True s) = report_events B T k True"
    and flags: "s_errorFlags (reportError B T k True s) = s_errorFlags s OR k"
    if "\<not> is_set k s"
    using that
    by (simp add: reportError_set_transition new_events_emits,
        simp add: reportError_set_transition emits_def)
  show ?thesis
    using twice fresh flags assms
    by (simp add: count_report_events_set reportError_clear_noop is_set_reports)
qed

theorem reportError_edge_triggered_witness:
  "one_bit 4
   \<and> list_all (\<lambda>r. one_bit (fst r)) [(4, True), (1, True), (4, False), (4, True), (1, False)]
   \<and> \<not> is_set 4 (power_on () 1)
   \<and> new_events (power_on () 1)
       (reportError GaryCooper_h example_tags 4 True
          (reportError GaryCooper_h example_tags 4 True (power_on () 1)))
     = [DEBUG_SERIAL_println_empty, DEBUG_SERIAL_print (F ''*** SET ERROR: ''),
        DEBUG_SERIAL_println (F ''telemetry_error_GPS_not_locked''),
        DEBUG_SERIAL_println_empty]
   \<and> s_errorFlags (reportError GaryCooper_h example_tags 4 True
          (reportError GaryCooper_h example_tags 4 True (power_on () 1))) = 4
   \<and> reportError GaryCooper_h example_tags 4 False (power_on () 1) = power_on () 1
   \<and> is_set 4 (reports GaryCooper_h example_tags
        [(4, True), (1, True), (4, False), (4, True), (1, False)] (power_on () 1))
   \<and> \<not> is_set 1 (reports GaryCooper_h example_tags
        [(4, True), (1, True), (4, False), (4, True), (1, False)] (power_on () 1))"
  using reportError_edge_triggered
          [of 4 "[(4, True), (1, True), (4, False), (4, True), (1, False)]"
              GaryCooper_h example_tags "power_on () 1"]
        reportError_edge_triggered
          [of 1 "[(4, True), (1, True), (4, False), (4, True), (1, False)]"
              GaryCooper_h example_tags "power_on () 1"]
  by (simp add: one_bit_1 one_bit_4 is_set_def power_on_def report_events_def
        reportError_def emits_def new_events_def
        errorString_def error_switch_def example_tags_def GaryCooper_h_def)

subsection \<open>The audible alert\<close>

text \<open>
  C4, as the code has it. On a set-transition \<open>reportError\<close> ors the tag into the mask
  and prints the report of the kind; the call of \<open>g_beepController.beep\<close> with the
  kind's count is compiled in only under \<^verbatim>\<open>BEEP_ON_ERROR\<close>, so the transition beeps
  once, with that count, in a build that defines the symbol and not at all in one that
  does not, the build of \<^verbatim>\<open>GaryCooper.h\<close> among them. On a clear-transition the tag is
  masked out, the report is printed and no build beeps. The counts of the seven
  enumerators the \<^verbatim>\<open>switch\<close> names are 1 to 7, one each (their values are pairwise
  different, as the labels of a \<^verbatim>\<open>switch\<close> must be).
\<close>

theorem reportError_beeps_only_under_BEEP_ON_ERROR:
  assumes "distinct (named_tags T)"
  shows "(\<not> is_set k s \<longrightarrow>
            s_errorFlags (reportError B T k True s) = s_errorFlags s OR k
          \<and> filter is_debug (new_events s (reportError B T k True s)) =
              [DEBUG_SERIAL_println_empty, DEBUG_SERIAL_print (F ''*** SET ERROR: ''),
               DEBUG_SERIAL_println (errorString T k), DEBUG_SERIAL_println_empty]
          \<and> filter is_beep (new_events s (reportError B T k True s)) =
              (if BEEP_ON_ERROR B
               then [g_beepController_beep BEEP_FREQ_ERROR 100 50 (beepCount T k)] else [])
          \<and> filter is_beep (new_events s (reportError GaryCooper_h T k True s)) = [])
       \<and> (is_set k s \<longrightarrow>
            s_errorFlags (reportError B T k False s) = s_errorFlags s AND NOT k
          \<and> filter is_debug (new_events s (reportError B T k False s)) =
              [DEBUG_SERIAL_println_empty, DEBUG_SERIAL_print (F ''*** CLEAR ERROR: ''),
               DEBUG_SERIAL_println (errorString T k), DEBUG_SERIAL_println_empty]
          \<and> filter is_beep (new_events s (reportError B T k False s)) = [])
       \<and> map (beepCount T) (named_tags T) = [1, 2, 3, 4, 5, 6, 7]"
proof -
  have set_tr: "s_errorFlags (reportError B' T k True s) = s_errorFlags s OR k"
    "new_events s (reportError B' T k True s) = report_events B' T k True"
    if "\<not> is_set k s" for B'
    using that
    by (simp add: reportError_set_transition emits_def,
        simp add: reportError_set_transition new_events_emits)
  have clear_tr: "s_errorFlags (reportError B T k False s) = s_errorFlags s AND NOT k"
    "new_events s (reportError B T k False s) = report_events B T k False"
    if "is_set k s"
    using that
    by (simp add: reportError_clear_transition emits_def,
        simp add: reportError_clear_transition new_events_emits)
  show ?thesis
    using set_tr clear_tr beepCount_named [OF assms]
    by (simp add: filter_is_beep_report_events filter_is_debug_report_events
          GaryCooper_h_def)
qed

theorem reportError_beeps_only_under_BEEP_ON_ERROR_witness:
  "distinct (named_tags example_tags)
   \<and> \<not> is_set 4 (power_on () 1)
   \<and> is_set 4 ((power_on () 1)\<lparr>s_errorFlags := 5\<rparr>)
   \<and> filter is_beep
       (new_events (power_on () 1)
          (reportError (GaryCooper_h\<lparr>BEEP_ON_ERROR := True\<rparr>) example_tags 4 True
             (power_on () 1))) =
       [g_beepController_beep BEEP_FREQ_ERROR 100 50 3]
   \<and> filter is_beep
       (new_events (power_on () 1)
          (reportError GaryCooper_h example_tags 4 True (power_on () 1))) = []
   \<and> s_errorFlags
       (reportError GaryCooper_h example_tags 4 False ((power_on () 1)\<lparr>s_errorFlags := 5\<rparr>))
     = 1"
  using reportError_beeps_only_under_BEEP_ON_ERROR
          [of example_tags 4 "power_on () 1" "GaryCooper_h\<lparr>BEEP_ON_ERROR := True\<rparr>"]
        reportError_beeps_only_under_BEEP_ON_ERROR
          [of example_tags 4 "(power_on () 1)\<lparr>s_errorFlags := 5\<rparr>" GaryCooper_h]
  by (simp add: named_tags_def example_tags_def is_set_def power_on_def GaryCooper_h_def
        beepCount_def error_switch_def)

text \<open>
  C4 as stated fails in the build of \<^verbatim>\<open>GaryCooper.h\<close>: the first report of the no-data
  error from power-on is a set-transition (the bit goes from 0 to 1, the line is
  printed), and no call of the beep controller is made.
\<close>

theorem reportError_set_without_beep_counterexample:
  "\<not> is_set 1 (power_on () 1)
   \<and> is_set 1 (reportError GaryCooper_h example_tags 1 True (power_on () 1))
   \<and> new_events (power_on () 1)
       (reportError GaryCooper_h example_tags 1 True (power_on () 1)) =
       [DEBUG_SERIAL_println_empty, DEBUG_SERIAL_print (F ''*** SET ERROR: ''),
        DEBUG_SERIAL_println (F ''telemetry_error_GPS_no_data''),
        DEBUG_SERIAL_println_empty]
   \<and> filter is_beep
       (new_events (power_on () 1)
          (reportError GaryCooper_h example_tags 1 True (power_on () 1))) = []"
  by (simp add: is_set_def power_on_def reportError_def emits_def new_events_def
        report_events_def errorString_def error_switch_def example_tags_def
        GaryCooper_h_def)

subsection \<open>Settings: the version gate\<close>

text \<open>
  C2. The calls \<open>loadSettings\<close> makes on the save controller and on the door and light
  controllers, console output left out, in every build: when the version read with
  \<open>getDataVersion\<close> differs from \<open>GARYCOOPER_DATA_VERSION\<close>, the whole default-write
  pass (header, rewind, door defaults, light defaults) and only then the rewind and the
  two loads; when it is equal, the rewind and the two loads alone, with no save.
\<close>

theorem loadSettings_default_write_iff_version_differs:
  "calls (new_events s (loadSettings B s)) =
     (if g_saveController_getDataVersion s \<noteq> GARYCOOPER_DATA_VERSION
      then [g_saveController_updateHeader GARYCOOPER_DATA_VERSION, g_saveController_rewind,
            g_doorController_saveSettings True, g_lightController_saveSettings True]
      else []) @
     [g_saveController_rewind, g_doorController_loadSettings, g_lightController_loadSettings]"
proof -
  have "new_events s (loadSettings B s) = loadSettings_events B (stored_version s)"
    by (simp add: loadSettings_eq new_events_def)
  then show ?thesis
    by (simp add: calls_loadSettings_events g_saveController_getDataVersion_def)
qed

theorem loadSettings_default_write_iff_version_differs_witness:
  "calls (new_events (power_on () 255) (loadSettings GaryCooper_h (power_on () 255))) =
     [g_saveController_updateHeader 1, g_saveController_rewind,
      g_doorController_saveSettings True, g_lightController_saveSettings True,
      g_saveController_rewind, g_doorController_loadSettings, g_lightController_loadSettings]
   \<and> calls (new_events (power_on () 1) (loadSettings GaryCooper_h (power_on () 1))) =
     [g_saveController_rewind, g_doorController_loadSettings, g_lightController_loadSettings]"
  using loadSettings_default_write_iff_version_differs [of "power_on () 255" GaryCooper_h]
        loadSettings_default_write_iff_version_differs [of "power_on () 1" GaryCooper_h]
  by (simp add: g_saveController_getDataVersion_def power_on_def GARYCOOPER_DATA_VERSION_def)

text \<open>
  C10. Every save pass calls, in this order, \<open>updateHeader\<close> with the compiled-in
  version, \<open>rewind\<close>, the door's save and the light's save (console output left out);
  the default-write pass of a load whose version differs is such a save pass, and the
  load then reads the door and then the light. After a save, and after any load, the
  version \<open>getDataVersion\<close> returns is the compiled-in one, so a load that follows a
  load makes no save call.
\<close>

theorem saveSettings_writes_version_first:
  "calls (new_events s (saveSettings B d s)) =
     [g_saveController_updateHeader GARYCOOPER_DATA_VERSION, g_saveController_rewind,
      g_doorController_saveSettings d, g_lightController_saveSettings d]
   \<and> calls (new_events s (loadSettings B s)) =
       (if g_saveController_getDataVersion s \<noteq> GARYCOOPER_DATA_VERSION
        then calls (new_events s (saveSettings B True s)) else []) @
       [g_saveController_rewind, g_doorController_loadSettings,
        g_lightController_loadSettings]
   \<and> g_saveController_getDataVersion (saveSettings B d s) = GARYCOOPER_DATA_VERSION
   \<and> g_saveController_getDataVersion (loadSettings B s) = GARYCOOPER_DATA_VERSION
   \<and> calls (new_events (loadSettings B s) (loadSettings B (loadSettings B s))) =
       [g_saveController_rewind, g_doorController_loadSettings,
        g_lightController_loadSettings]"
  by (simp add: calls_saveSettings calls_loadSettings stored_version_loadSettings
        g_saveController_getDataVersion_def)
     (simp add: saveSettings_eq)

theorem saveSettings_writes_version_first_witness:
  "calls (new_events (power_on () 255) (saveSettings GaryCooper_h False (power_on () 255))) =
     [g_saveController_updateHeader 1, g_saveController_rewind,
      g_doorController_saveSettings False, g_lightController_saveSettings False]
   \<and> g_saveController_getDataVersion (loadSettings GaryCooper_h (power_on () 255)) = 1
   \<and> calls (new_events (loadSettings GaryCooper_h (power_on () 255))
        (loadSettings GaryCooper_h (loadSettings GaryCooper_h (power_on () 255)))) =
       [g_saveController_rewind, g_doorController_loadSettings,
        g_lightController_loadSettings]"
  using saveSettings_writes_version_first [of "power_on () 255" GaryCooper_h False]
  by (simp add: GARYCOOPER_DATA_VERSION_def)

subsection \<open>The input drain\<close>

text \<open>
  C5, as the code has it. The drain is a \<^verbatim>\<open>while\<close> on \<^verbatim>\<open>available()\<close>: one pass of the
  loop reads until the receive buffer is empty. Each read takes at most 255 bytes (the
  scratch buffer less one) and at least one, the reads taken together are the buffer as
  it stood, in order, and every read is handed to the parser, one \<open>parse\<close> call each;
  the fresh-input flag is up afterwards iff it was up or there were bytes.
\<close>

theorem gps_drain_reads_until_empty:
  "GPS_SERIAL (loop B X T i s) = []
   \<and> filter is_parse (new_events s (loop B X T i s)) =
       map g_GPSParser_parse (chunks255 (GPS_SERIAL s))
   \<and> concat (chunks255 (GPS_SERIAL s)) = GPS_SERIAL s
   \<and> list_all (\<lambda>c. c \<noteq> [] \<and> length c \<le> 255) (chunks255 (GPS_SERIAL s))
   \<and> g_GPSParser (before_telemetry B X s) =
       parse_all X (chunks255 (GPS_SERIAL s)) (g_GPSParser s)
   \<and> s_gpsDataStreamActive (before_telemetry B X s) =
       (s_gpsDataStreamActive s \<or> GPS_SERIAL s \<noteq> [])"
proof -
  have reads: "filter is_parse (new_events s (loop B X T i s)) =
      map g_GPSParser_parse (chunks255 (GPS_SERIAL s))"
    by (simp add: new_events_loop filter_events)
  have state: "g_GPSParser (before_telemetry B X s) =
      parse_all X (chunks255 (GPS_SERIAL s)) (g_GPSParser s)"
    "s_gpsDataStreamActive (before_telemetry B X s) =
      (s_gpsDataStreamActive s \<or> GPS_SERIAL s \<noteq> [])"
    by (simp_all add: before_telemetry_eq fresh_input_def)
  show ?thesis
    using reads state
    by (simp add: loop_fields concat_chunks255 list_all_chunks255)
qed

theorem gps_drain_reads_until_empty_witness:
  "GPS_SERIAL
     (loop GaryCooper_h example_collaborators example_tags (pass [] False False)
        (receive (replicate 600 36) (power_on False 1))) = []
   \<and> filter is_parse
       (new_events (power_on False 1)
          (loop GaryCooper_h example_collaborators example_tags (pass [] False False)
             (receive (replicate 600 36) (power_on False 1)))) =
       [g_GPSParser_parse (replicate 255 36), g_GPSParser_parse (replicate 255 36),
        g_GPSParser_parse (replicate 90 36)]"
  using gps_drain_reads_until_empty
          [of GaryCooper_h example_collaborators example_tags "pass [] False False"
              "receive (replicate 600 36) (power_on False 1)"]
  by (simp add: chunks255_Cons receive_fields power_on_def)

text \<open>
  C5 as stated fails: with 256 bytes waiting, one pass of the loop consumes all 256, more
  than the 255 that fit, in two reads; nothing is left for a later pass.
\<close>

theorem gps_drain_one_buffer_counterexample:
  "length (GPS_SERIAL (receive (replicate 256 36) (power_on False 1))) = 256
   \<and> \<not> length (GPS_SERIAL (receive (replicate 256 36) (power_on False 1)))
        - length
            (GPS_SERIAL
               (loop GaryCooper_h example_collaborators example_tags (pass [] False False)
                  (receive (replicate 256 36) (power_on False 1))))
        \<le> 255
   \<and> GPS_SERIAL
       (loop GaryCooper_h example_collaborators example_tags (pass [] False False)
          (receive (replicate 256 36) (power_on False 1))) = []
   \<and> filter is_parse
       (new_events (power_on False 1)
          (loop GaryCooper_h example_collaborators example_tags (pass [] False False)
             (receive (replicate 256 36) (power_on False 1)))) =
       [g_GPSParser_parse (replicate 255 36), g_GPSParser_parse [36]]"
  by (simp add: loop_fields new_events_loop_receive filter_events receive_fields
        chunks255_Cons power_on_def pass_def)

subsection \<open>The telemetry task\<close>

text \<open>
  C8. In a pass that finds the telemetry timer expired, the calls on the heartbeat pin, on
  the telemetry timer, on the telemetry module and on the \<open>sendTelemetry\<close> hooks are
  exactly these, in this order: the pin is written with the toggled heartbeat; the timer
  is restarted for 2000 ms; a transmission is opened, carries the version tag and the
  version, and is closed; a second transmission carries the error-flags tag and the
  flag word (\<open>sendErrors\<close>, the errors hook); then the sun calculator, the door and the
  light send their telemetry. They are, with nothing in between, the events of the pass
  between the ticks (\<open>before_telemetry\<close>) and the time check (\<open>before_timeCheck\<close>).
\<close>

theorem telemetry_task_order:
  assumes "telemetry_expired i"
  shows "filter is_telemetry_task (new_events s (loop B X T i s)) =
           [digitalWrite_PIN_HEARTBEAT_LED (\<not> g_heartbeat s),
            CMilliTimer_start g_telemetryUpdateTimer 2000,
            g_telemetry_transmissionStart,
            g_telemetry_sendTerm telemetry_tag_version,
            g_telemetry_sendTerm TELEMETRY_VERSION_01,
            g_telemetry_transmissionEnd,
            g_telemetry_transmissionStart,
            g_telemetry_sendTerm telemetry_tag_error_flags,
            g_telemetry_sendTerm (term_uint16 (s_errorFlags s)),
            g_telemetry_transmissionEnd,
            g_sunCalc_sendTelemetry,
            g_doorController_sendTelemetry,
            g_lightController_sendTelemetry]
       \<and> new_events (before_telemetry B X s) (before_timeCheck B X i s) =
           filter is_telemetry_task (new_events s (loop B X T i s))
       \<and> g_heartbeat (loop B X T i s) = (\<not> g_heartbeat s)"
proof -
  have block: "new_events (before_telemetry B X s) (before_timeCheck B X i s) =
      telemetry_events (\<not> g_heartbeat s) (s_errorFlags s)"
    using assms
    by (simp add: before_timeCheck_def loop_telemetry_eq new_events_def)
       (simp add: before_telemetry_eq)
  have pass: "filter is_telemetry_task (new_events s (loop B X T i s)) =
      telemetry_events (\<not> g_heartbeat s) (s_errorFlags s)"
    using assms by (simp add: new_events_loop filter_events)
  show ?thesis
    using assms block pass
    by (simp add: loop_fields)
       (simp add: telemetry_events_def TELEMETRY_UPDATE_def MILLIS_PER_SECOND_def)
qed

theorem telemetry_task_order_witness:
  "telemetry_expired (pass [] True False)
   \<and> filter is_telemetry_task
       (new_events (power_on False 1)
          (loop GaryCooper_h example_collaborators example_tags (pass [] True False)
             (power_on False 1))) =
       [digitalWrite_PIN_HEARTBEAT_LED True,
        CMilliTimer_start g_telemetryUpdateTimer 2000,
        g_telemetry_transmissionStart,
        g_telemetry_sendTerm telemetry_tag_version,
        g_telemetry_sendTerm TELEMETRY_VERSION_01,
        g_telemetry_transmissionEnd,
        g_telemetry_transmissionStart,
        g_telemetry_sendTerm telemetry_tag_error_flags,
        g_telemetry_sendTerm (term_uint16 0),
        g_telemetry_transmissionEnd,
        g_sunCalc_sendTelemetry,
        g_doorController_sendTelemetry,
        g_lightController_sendTelemetry]
   \<and> g_heartbeat
       (loop GaryCooper_h example_collaborators example_tags (pass [] True False)
          (power_on False 1))"
  using telemetry_task_order
          [of "pass [] True False" "power_on False 1" GaryCooper_h example_collaborators
              example_tags]
  by (simp add: pass_def power_on_def)

subsection \<open>The time check\<close>

text \<open>
  C7. The \<open>checkTime\<close> calls of a pass: the door's and then the light's when the pass
  finds the time-check timer expired and \<open>processGPSData\<close> answers true on the fix data
  it is given (the parser state the pass ends with: nothing touches it after the call),
  and none otherwise. The pass returns its state either way (\<open>loop\<close> is a total
  function), so the next pass runs.
\<close>

theorem checkTime_iff_time_valid:
  "filter is_checkTime (new_events s (loop B X T i s)) =
     (if timeCheck_expired i \<and> CSunCalc_processGPSData X (g_GPSParser (loop B X T i s))
      then [g_doorController_checkTime, g_lightController_checkTime] else [])"
proof (cases "timeCheck_expired i")
  case True
  then have "g_GPSParser (loop B X T i s) = timeCheck_parser X (before_timeCheck B X i s)"
    by (simp add: loop_fields)
  with True show ?thesis
    by (simp add: new_events_loop filter_events)
next
  case False
  then show ?thesis
    by (simp add: new_events_loop filter_events)
qed

theorem checkTime_iff_time_valid_witness:
  "filter is_checkTime
     (new_events (power_on False 1)
        (loop GaryCooper_h example_collaborators example_tags (pass [65] False True)
           (receive [65] (power_on False 1)))) =
     [g_doorController_checkTime, g_lightController_checkTime]
   \<and> filter is_checkTime
     (new_events (power_on False 1)
        (loop GaryCooper_h example_collaborators example_tags (pass [36] False True)
           (receive [36] (power_on False 1)))) = []
   \<and> filter is_checkTime
     (new_events (power_on False 1)
        (loop GaryCooper_h example_collaborators example_tags (pass [65] False False)
           (receive [65] (power_on False 1)))) = []"
  using checkTime_iff_time_valid
          [of "receive [65] (power_on False 1)" GaryCooper_h example_collaborators
              example_tags "pass [65] False True"]
        checkTime_iff_time_valid
          [of "receive [36] (power_on False 1)" GaryCooper_h example_collaborators
              example_tags "pass [36] False True"]
        checkTime_iff_time_valid
          [of "receive [65] (power_on False 1)" GaryCooper_h example_collaborators
              example_tags "pass [65] False False"]
  by (simp add: loop_fields timeCheck_parser_def before_timeCheck_fields receive_fields
        fresh_input_def parse_all_def pass_def example_collaborators_def power_on_def)

text \<open>
  C3. A pass restarts the time-check timer exactly when it finds it expired, once, and as
  the first thing the time-check block does; the period is 60000 ms when the fix is
  locked and 5000 ms when it is not, the lock being the one of the parser as this very
  pass has left it after parsing the bytes it drained. So a fix that locks on the bytes
  of a pass gives the long period in that pass already.
\<close>

theorem timeCheck_rearm_adaptive:
  "filter is_timeCheck_start (new_events s (loop B X T i s)) =
     (if timeCheck_expired i
      then [CMilliTimer_start g_timeCheckTimer
              (if m_GPSLocked X (parse_all X (chunks255 (GPS_SERIAL s)) (g_GPSParser s))
               then 60000 else 5000)]
      else [])
   \<and> (timeCheck_expired i \<longrightarrow>
        take 1 (new_events (before_timeCheck B X i s) (loop B X T i s)) =
          [CMilliTimer_start g_timeCheckTimer
             (if m_GPSLocked X (g_GPSParser (before_timeCheck B X i s))
              then 60000 else 5000)])
   \<and> g_GPSParser (before_timeCheck B X i s) =
        parse_all X (chunks255 (GPS_SERIAL s)) (g_GPSParser s)"
proof -
  have drained: "g_GPSParser (before_timeCheck B X i s) =
      parse_all X (chunks255 (GPS_SERIAL s)) (g_GPSParser s)"
    by (simp add: before_timeCheck_fields)
  have starts: "filter is_timeCheck_start (new_events s (loop B X T i s)) =
      (if timeCheck_expired i
       then [CMilliTimer_start g_timeCheckTimer
               (if m_GPSLocked X (g_GPSParser (before_timeCheck B X i s))
                then 60000 else 5000)]
       else [])"
    by (simp add: new_events_loop filter_events TIME_CHECK_UPDATE_GPS_LOCK_def
          TIME_CHECK_UPDATE_NO_GPS_LOCK_def MILLIS_PER_SECOND_def)
  have first: "take 1 (new_events (before_timeCheck B X i s) (loop B X T i s)) =
      [CMilliTimer_start g_timeCheckTimer
         (if m_GPSLocked X (g_GPSParser (before_timeCheck B X i s))
          then 60000 else 5000)]"
    if "timeCheck_expired i"
    using that
    by (simp add: loop_eq loop_timeCheck_eq new_events_def timeCheck_events_def
          TIME_CHECK_UPDATE_GPS_LOCK_def TIME_CHECK_UPDATE_NO_GPS_LOCK_def
          MILLIS_PER_SECOND_def)
  show ?thesis
    using starts first by (simp add: drained)
qed

theorem timeCheck_rearm_adaptive_witness:
  "timeCheck_expired (pass [65] False True)
   \<and> filter is_timeCheck_start
       (new_events (power_on False 1)
          (loop GaryCooper_h example_collaborators example_tags (pass [36] False True)
             (receive [36] (power_on False 1)))) =
       [CMilliTimer_start g_timeCheckTimer 5000]
   \<and> \<not> m_GPSLocked example_collaborators
         (g_GPSParser
            (loop GaryCooper_h example_collaborators example_tags (pass [36] False True)
               (receive [36] (power_on False 1))))
   \<and> filter is_timeCheck_start
       (new_events
          (loop GaryCooper_h example_collaborators example_tags (pass [36] False True)
             (receive [36] (power_on False 1)))
          (loop GaryCooper_h example_collaborators example_tags (pass [65] False True)
             (receive [65]
                (loop GaryCooper_h example_collaborators example_tags (pass [36] False True)
                   (receive [36] (power_on False 1)))))) =
       [CMilliTimer_start g_timeCheckTimer 60000]"
  using timeCheck_rearm_adaptive
          [of "receive [36] (power_on False 1)" GaryCooper_h example_collaborators
              example_tags "pass [36] False True"]
        timeCheck_rearm_adaptive
          [of "receive [65]
                (loop GaryCooper_h example_collaborators example_tags (pass [36] False True)
                   (receive [36] (power_on False 1)))"
              GaryCooper_h example_collaborators example_tags "pass [65] False True"]
  by (simp add: loop_fields timeCheck_parser_def before_timeCheck_fields receive_fields
        fresh_input_def parse_all_def pass_def example_collaborators_def power_on_def)

text \<open>
  C6. With a non-zero tag for the no-data kind. A pass changes the error register, and
  prints a \<^verbatim>\<open>*** SET ERROR: \<close> or \<^verbatim>\<open>*** CLEAR ERROR: \<close> line, only when it finds the
  time-check timer expired, and then by one \<open>reportError telemetry_error_GPS_no_data\<close>,
  asserted iff no fresh input is there; the flag \<open>s_gpsDataStreamActive\<close> is lowered
  by such a pass and by no other. Hence, after
  a time check, over passes that do not fire followed by one that does, the error is set
  after that firing iff no byte arrived in any of these passes. Over any stretch of
  passes without a byte and with at least one firing, starting with the error clear,
  the console gets the \<^verbatim>\<open>*** SET ERROR: \<close> line exactly once and no
  \<^verbatim>\<open>*** CLEAR ERROR: \<close> line; over any stretch where bytes arrive before every pass,
  with at least one firing and starting with the error set, it gets the
  \<^verbatim>\<open>*** CLEAR ERROR: \<close> line exactly once and no \<^verbatim>\<open>*** SET ERROR: \<close> line.
\<close>

theorem no_data_error_at_firings:
  assumes "telemetry_error_GPS_no_data T \<noteq> 0"
  shows "s_errorFlags (loop B X T i s) =
           (if timeCheck_expired i
            then s_errorFlags
                   (reportError B T (telemetry_error_GPS_no_data T) (\<not> fresh_input s) s)
            else s_errorFlags s)
       \<and> count_list (new_events s (loop B X T i s)) SET_ERROR =
           (if timeCheck_expired i \<and> \<not> fresh_input s \<and>
               \<not> is_set (telemetry_error_GPS_no_data T) s
            then 1 else 0)
       \<and> count_list (new_events s (loop B X T i s)) CLEAR_ERROR =
           (if timeCheck_expired i \<and> fresh_input s \<and>
               is_set (telemetry_error_GPS_no_data T) s
            then 1 else 0)
       \<and> s_gpsDataStreamActive (loop B X T i s) = (\<not> timeCheck_expired i \<and> fresh_input s)
       \<and> (\<not> fresh_input s \<and> list_all (\<lambda>j. \<not> timeCheck_expired j) js \<and> timeCheck_expired i \<longrightarrow>
            is_set (telemetry_error_GPS_no_data T) (run B X T (js @ [i]) s) =
              list_all (\<lambda>j. arrived j = []) (js @ [i]))
       \<and> (\<not> fresh_input s \<and> \<not> is_set (telemetry_error_GPS_no_data T) s \<and>
           list_all (\<lambda>j. arrived j = []) js \<and> list_ex timeCheck_expired js \<longrightarrow>
            count_list (new_events s (run B X T js s)) SET_ERROR = 1
          \<and> count_list (new_events s (run B X T js s)) CLEAR_ERROR = 0
          \<and> is_set (telemetry_error_GPS_no_data T) (run B X T js s))
       \<and> (is_set (telemetry_error_GPS_no_data T) s \<and>
           list_all (\<lambda>j. arrived j \<noteq> []) js \<and> list_ex timeCheck_expired js \<longrightarrow>
            count_list (new_events s (run B X T js s)) CLEAR_ERROR = 1
          \<and> count_list (new_events s (run B X T js s)) SET_ERROR = 0
          \<and> \<not> is_set (telemetry_error_GPS_no_data T) (run B X T js s))"
proof -
  have flags: "s_errorFlags (loop B X T i s) =
      (if timeCheck_expired i
       then s_errorFlags
              (reportError B T (telemetry_error_GPS_no_data T) (\<not> fresh_input s) s)
       else s_errorFlags s)"
    using timeCheck_flags_reportError [of T "before_timeCheck B X i s" B]
    by (simp add: loop_fields before_timeCheck_fields)
       (simp add: reportError_def emits_def before_timeCheck_fields)
  have "next": "is_set (telemetry_error_GPS_no_data T) (run B X T (js @ [i]) s) =
      list_all (\<lambda>j. arrived j = []) (js @ [i])"
    if "\<not> fresh_input s" "list_all (\<lambda>j. \<not> timeCheck_expired j) js" "timeCheck_expired i"
    using assms that by (rule next_firing)
  show ?thesis
    using flags "next" silent_run [OF assms, of s js B X] arriving_run [OF assms, of js s B X]
    by (simp add: loop_fields count_loop)
qed

theorem no_data_error_at_firings_witness:
  "telemetry_error_GPS_no_data example_tags \<noteq> 0
   \<and> count_list
       (new_events (power_on False 1)
          (run GaryCooper_h example_collaborators example_tags
             [pass [] True False, pass [] False True, pass [] False False, pass [] True True]
             (power_on False 1)))
       SET_ERROR = 1
   \<and> is_set 1
       (run GaryCooper_h example_collaborators example_tags
          [pass [] True False, pass [] False True, pass [] False False, pass [] True True]
          (power_on False 1))
   \<and> is_set 1
       (run GaryCooper_h example_collaborators example_tags
          ([pass [] True False, pass [] False False] @ [pass [] False True])
          (power_on False 1))
   \<and> count_list
       (new_events ((power_on False 1)\<lparr>s_errorFlags := 1\<rparr>)
          (run GaryCooper_h example_collaborators example_tags
             [pass [36] False False, pass [36, 65] False True, pass [65] True True]
             ((power_on False 1)\<lparr>s_errorFlags := 1\<rparr>)))
       CLEAR_ERROR = 1
   \<and> \<not> is_set 1
       (run GaryCooper_h example_collaborators example_tags
          [pass [36] False False, pass [36, 65] False True, pass [65] True True]
          ((power_on False 1)\<lparr>s_errorFlags := 1\<rparr>))"
  using no_data_error_at_firings
          [of example_tags GaryCooper_h example_collaborators "pass [] False True"
              "power_on False 1"
              "[pass [] True False, pass [] False True, pass [] False False, pass [] True True]"]
        no_data_error_at_firings
          [of example_tags GaryCooper_h example_collaborators "pass [] False True"
              "power_on False 1" "[pass [] True False, pass [] False False]"]
        no_data_error_at_firings
          [of example_tags GaryCooper_h example_collaborators "pass [] False True"
              "(power_on False 1)\<lparr>s_errorFlags := 1\<rparr>"
              "[pass [36] False False, pass [36, 65] False True, pass [65] True True]"]
  by (simp add: example_tags_def fresh_input_def is_set_def pass_def power_on_def)

text \<open>
  C9, as the code has it. Given that a cleared fix is not locked: a pass that finds the
  time-check timer expired and no fresh input restarts the timer (with the period of the
  lock as it still is), then calls \<open>clear()\<close> on the fix data, and only then reports
  the no-data error; the pass ends with the cleared, unlocked fix. At every later firing
  reached while no byte has arrived since (in the passes between and in the firing pass
  itself), the timer is restarted with the short 5000 ms period. Bytes that arrive in
  between are parsed and may lock the fix again; the theorem promises nothing then.
\<close>

theorem no_data_clears_fix:
  assumes "clear_resets_lock X"
  shows "(timeCheck_expired i \<and> \<not> fresh_input s \<longrightarrow>
            new_events (before_timeCheck B X i s) (loop B X T i s) =
              [CMilliTimer_start g_timeCheckTimer
                 (if m_GPSLocked X (g_GPSParser s) then 60000 else 5000),
               g_GPSData_clear] @
              (if is_set (telemetry_error_GPS_no_data T) s then []
               else report_events B T (telemetry_error_GPS_no_data T) True) @
              [g_sunCalc_processGPSData] @
              (if CSunCalc_processGPSData X (CGPSData_clear X (g_GPSParser s))
               then [g_doorController_checkTime, g_lightController_checkTime] else [])
          \<and> g_GPSParser (loop B X T i s) = CGPSData_clear X (g_GPSParser s)
          \<and> \<not> m_GPSLocked X (g_GPSParser (loop B X T i s)))
       \<and> (timeCheck_expired i \<and> \<not> fresh_input s \<and>
           list_all (\<lambda>j. arrived j = []) (js @ [k]) \<and> timeCheck_expired k \<longrightarrow>
            filter is_timeCheck_start
              (new_events (run B X T js (loop B X T i s))
                 (loop B X T k (receive (arrived k) (run B X T js (loop B X T i s))))) =
              [CMilliTimer_start g_timeCheckTimer 5000])"
proof -
  have first: "new_events (before_timeCheck B X i s) (loop B X T i s) =
        [CMilliTimer_start g_timeCheckTimer
           (if m_GPSLocked X (g_GPSParser s) then 60000 else 5000),
         g_GPSData_clear] @
        (if is_set (telemetry_error_GPS_no_data T) s then []
         else report_events B T (telemetry_error_GPS_no_data T) True) @
        [g_sunCalc_processGPSData] @
        (if CSunCalc_processGPSData X (CGPSData_clear X (g_GPSParser s))
         then [g_doorController_checkTime, g_lightController_checkTime] else [])"
    and cleared: "g_GPSParser (loop B X T i s) = CGPSData_clear X (g_GPSParser s)"
    if "timeCheck_expired i" "\<not> fresh_input s"
  proof -
    have empty: "GPS_SERIAL s = []" using that by (simp add: fresh_input_def)
    show "g_GPSParser (loop B X T i s) = CGPSData_clear X (g_GPSParser s)"
      using that empty
      by (simp add: loop_fields timeCheck_parser_def before_timeCheck_fields parse_all_Nil)
    show "new_events (before_timeCheck B X i s) (loop B X T i s) =
        [CMilliTimer_start g_timeCheckTimer
           (if m_GPSLocked X (g_GPSParser s) then 60000 else 5000),
         g_GPSData_clear] @
        (if is_set (telemetry_error_GPS_no_data T) s then []
         else report_events B T (telemetry_error_GPS_no_data T) True) @
        [g_sunCalc_processGPSData] @
        (if CSunCalc_processGPSData X (CGPSData_clear X (g_GPSParser s))
         then [g_doorController_checkTime, g_lightController_checkTime] else [])"
      using that empty
      by (simp add: loop_eq loop_timeCheck_eq new_events_def timeCheck_events_def
            timeCheck_parser_def before_timeCheck_fields parse_all_Nil
            TIME_CHECK_UPDATE_GPS_LOCK_def TIME_CHECK_UPDATE_NO_GPS_LOCK_def
            MILLIS_PER_SECOND_def)
  qed
  have unlocked: "\<not> m_GPSLocked X (g_GPSParser (loop B X T i s))"
    if "timeCheck_expired i" "\<not> fresh_input s"
    using cleared [OF that] assms by (simp add: clear_resets_lock_def)
  have later: "filter is_timeCheck_start
        (new_events (run B X T js (loop B X T i s))
           (loop B X T k (receive (arrived k) (run B X T js (loop B X T i s))))) =
        [CMilliTimer_start g_timeCheckTimer 5000]"
    if "timeCheck_expired i" "\<not> fresh_input s"
       "list_all (\<lambda>j. arrived j = []) (js @ [k])" "timeCheck_expired k"
  proof -
    let ?s1 = "loop B X T i s"
    let ?s2 = "run B X T js ?s1"
    have f1: "\<not> fresh_input ?s1" using that by (simp add: fresh_input_loop)
    have js: "list_all (\<lambda>j. arrived j = []) js" and k: "arrived k = []"
      using that by simp_all
    have inv: "\<not> m_GPSLocked X (g_GPSParser ?s2) \<and> \<not> fresh_input ?s2"
      using assms f1 unlocked [OF that(1,2)] js by (rule silent_run_unlocked)
    then have "GPS_SERIAL ?s2 = []" by (simp add: fresh_input_def)
    then show ?thesis
      using inv k that(4)
      by (simp add: new_events_loop_receive filter_events before_timeCheck_fields
            receive_fields parse_all_Nil TIME_CHECK_UPDATE_NO_GPS_LOCK_def
            MILLIS_PER_SECOND_def)
  qed
  show ?thesis
    using first cleared unlocked later by simp
qed

theorem no_data_clears_fix_witness:
  "clear_resets_lock example_collaborators
   \<and> timeCheck_expired (pass [] False True)
   \<and> \<not> fresh_input (power_on True 1)
   \<and> list_all (\<lambda>j. arrived j = []) ([pass [] True False] @ [pass [] False True])
   \<and> new_events
       (before_timeCheck GaryCooper_h example_collaborators (pass [] False True)
          (power_on True 1))
       (loop GaryCooper_h example_collaborators example_tags (pass [] False True)
          (power_on True 1)) =
       [CMilliTimer_start g_timeCheckTimer 60000, g_GPSData_clear,
        DEBUG_SERIAL_println_empty, DEBUG_SERIAL_print (F ''*** SET ERROR: ''),
        DEBUG_SERIAL_println (F ''telemetry_error_GPS_no_data''),
        DEBUG_SERIAL_println_empty, g_sunCalc_processGPSData]
   \<and> filter is_timeCheck_start
       (new_events
          (run GaryCooper_h example_collaborators example_tags [pass [] True False]
             (loop GaryCooper_h example_collaborators example_tags (pass [] False True)
                (power_on True 1)))
          (loop GaryCooper_h example_collaborators example_tags (pass [] False True)
             (receive (arrived (pass [] False True))
                (run GaryCooper_h example_collaborators example_tags [pass [] True False]
                   (loop GaryCooper_h example_collaborators example_tags
                      (pass [] False True) (power_on True 1)))))) =
       [CMilliTimer_start g_timeCheckTimer 5000]"
  using no_data_clears_fix
          [of example_collaborators "pass [] False True" "power_on True 1" GaryCooper_h
              example_tags "[pass [] True False]" "pass [] False True"]
  by (simp add: clear_resets_lock_def example_collaborators_def fresh_input_def is_set_def
        pass_def power_on_def report_events_def errorString_def error_switch_def
        example_tags_def GaryCooper_h_def)

text \<open>
  C9 as stated fails: the fix is locked and silent at one firing (the pass clears it and
  reports the error), the byte 65 then arrives and locks the example parser again, and
  the next firing restarts the timer with 60000 ms, not with the short period.
\<close>

theorem no_data_then_relock_counterexample:
  "clear_resets_lock example_collaborators
   \<and> count_list
       (new_events (power_on True 1)
          (loop GaryCooper_h example_collaborators example_tags (pass [] False True)
             (power_on True 1)))
       g_GPSData_clear = 1
   \<and> is_set 1
       (loop GaryCooper_h example_collaborators example_tags (pass [] False True)
          (power_on True 1))
   \<and> filter is_timeCheck_start
       (new_events
          (loop GaryCooper_h example_collaborators example_tags (pass [] False True)
             (power_on True 1))
          (loop GaryCooper_h example_collaborators example_tags (pass [65] False True)
             (receive [65]
                (loop GaryCooper_h example_collaborators example_tags (pass [] False True)
                   (power_on True 1))))) =
       [CMilliTimer_start g_timeCheckTimer 60000]"
  by (simp add: new_events_loop new_events_loop_receive loop_fields timeCheck_events_def
        timeCheck_parser_def before_timeCheck_fields receive_fields drain_events_Nil
        filter_settings_events filter_drain_events filter_tick_events
        timeCheck_flags_def settings_events_def loadSettings_events_def tick_events_def
        report_events_def errorString_def error_switch_def chunks255_short parse_all_def
        fresh_input_def is_set_def clear_resets_lock_def
        TIME_CHECK_UPDATE_GPS_LOCK_def TIME_CHECK_UPDATE_NO_GPS_LOCK_def
        MILLIS_PER_SECOND_def GARYCOOPER_DATA_VERSION_def
        pass_def power_on_def example_collaborators_def example_tags_def GaryCooper_h_def)

end
